theory Spec2Isabelle
  imports Complex_Main "HOL-Library.Sublist"
begin

section \<open>Receipt pipeline: storage gateway, extraction engine, reconciliation\<close>

text \<open>
  A shallow embedding of the receipt feature: the sync server's receipt router
  (upload store, retrieval gateway, deletion), the extraction service
  \<^verbatim>\<open>services/receipt-processor.ts\<close> and the commit logic of the
  \<^verbatim>\<open>ReceiptReview\<close> component. JavaScript strings are modelled as
  \<^typ>\<open>string\<close>; the builtins whose behaviour depends on Unicode tables, on the
  clock or on the network (\<^verbatim>\<open>toLowerCase\<close>, \<^verbatim>\<open>JSON.parse\<close>, the current date,
  \<^verbatim>\<open>send\<close>) are parameters of the functions that call them.
\<close>

subsection \<open>JavaScript values\<close>

text \<open>
  A JavaScript number as far as this code can tell numbers apart: the code only tests
  numbers for truthiness and passes them on, so a finite double is represented by the
  rational it denotes (\<open>0\<close> and \<open>-0\<close> coincide).
\<close>

datatype jsnum = Finite rat | PosInfinity | NegInfinity | NaN

datatype jsval =
    JSUndefined
  | JSNull
  | JSBool bool
  | JSNumber jsnum
  | JSString string
  | JSArray "jsval list"
  | JSObject "(string \<times> jsval) list"

text \<open>\<^verbatim>\<open>ToBoolean\<close>: the falsy values are undefined, null, false, 0, NaN and the empty string.\<close>

fun truthyNum :: "jsnum \<Rightarrow> bool" where
  "truthyNum (Finite r) = (r \<noteq> 0)"
| "truthyNum NaN = False"
| "truthyNum PosInfinity = True"
| "truthyNum NegInfinity = True"

fun truthy :: "jsval \<Rightarrow> bool" where
  "truthy JSUndefined = False"
| "truthy JSNull = False"
| "truthy (JSBool b) = b"
| "truthy (JSNumber n) = truthyNum n"
| "truthy (JSString s) = (s \<noteq> [])"
| "truthy (JSArray xs) = True"
| "truthy (JSObject kvs) = True"

text \<open>The operator \<^verbatim>\<open>a || b\<close> on values that are already evaluated.\<close>

definition orElse :: "jsval \<Rightarrow> jsval \<Rightarrow> jsval" where
  "orElse a b = (if truthy a then a else b)"

text \<open>
  Reading a data property \<^verbatim>\<open>v.k\<close>. On null and undefined the read throws a TypeError,
  so \<open>readable\<close> says whether a read returns at all. On an object the read gives the own
  property or undefined; the primitives and arrays have none of the property names this
  code reads (\<^verbatim>\<open>expenses\<close>, \<^verbatim>\<open>totalAmount\<close>, \<^verbatim>\<open>date\<close>, \<^verbatim>\<open>merchant\<close>,
  \<^verbatim>\<open>confidence\<close>, \<^verbatim>\<open>amount\<close>, \<^verbatim>\<open>categoryId\<close>, \<^verbatim>\<open>categoryName\<close>, \<^verbatim>\<open>note\<close>), so
  the read gives undefined there.
\<close>

fun readable :: "jsval \<Rightarrow> bool" where
  "readable JSUndefined = False"
| "readable JSNull = False"
| "readable v = True"

fun field :: "jsval \<Rightarrow> string \<Rightarrow> jsval" where
  "field (JSObject kvs) k = (case map_of kvs k of None \<Rightarrow> JSUndefined | Some v \<Rightarrow> v)"
| "field v k = JSUndefined"

subsection \<open>Node's \<^verbatim>\<open>path.extname\<close> and \<^verbatim>\<open>path.basename\<close> (POSIX)\<close>

text \<open>
  The last path component: trailing slashes are skipped, then everything after the last
  remaining slash is the component.
\<close>

definition lastPart :: "string \<Rightarrow> string" where
  "lastPart p = rev (takeWhile (\<lambda>c. c \<noteq> CHR ''/'') (dropWhile (\<lambda>c. c = CHR ''/'') (rev p)))"

text \<open>
  \<^verbatim>\<open>path.extname\<close>: from the last dot of the last component to its end; empty when the
  component has no dot, when its only dot is its first character, or when it is \<^verbatim>\<open>..\<close>.
\<close>

definition extname :: "string \<Rightarrow> string" where
  "extname p =
     (let c = lastPart p;
          afterDot = rev (takeWhile (\<lambda>x. x \<noteq> CHR ''.'') (rev c));
          beforeDot = take (length c - length afterDot - 1) c
      in if CHR ''.'' \<notin> set c \<or> beforeDot = [] \<or> c = ''..'' then []
         else CHR ''.'' # afterDot)"

text \<open>
  \<^verbatim>\<open>path.basename(p, ext)\<close>: the last component with \<^verbatim>\<open>ext\<close> removed from its end when
  it ends with it and is longer. Node compares backwards from the end of the path; when
  the component runs out before \<^verbatim>\<open>ext\<close> does, the slice runs to the end of the path,
  trailing slashes included.
\<close>

definition basename :: "string \<Rightarrow> string \<Rightarrow> string" where
  "basename p ext =
     (if ext \<noteq> [] \<and> length ext \<le> length p then
        if ext = p then []
        else
          let trail = takeWhile (\<lambda>c. c = CHR ''/'') (rev p);
              c = lastPart p
          in if suffix ext c then (if ext = c then c else take (length c - length ext) c)
             else if suffix c ext then c @ trail
             else c
      else lastPart p)"

subsection \<open>Receipt router: identifier resolution\<close>

text \<open>
  The upload handler derives the identifier from the stored file's name:
  \<^verbatim>\<open>path.basename(filePath, path.extname(filePath))\<close>.
\<close>

definition fileIdOf :: "string \<Rightarrow> string" where
  "fileIdOf filePath = basename filePath (extname filePath)"

text \<open>
  \<^verbatim>\<open>POST /process\<close>:
  \<^verbatim>\<open>f.startsWith(`${fileId}.`) || f.includes(`_${fileId}.`)\<close>.
\<close>

definition matchesProcess :: "string \<Rightarrow> string \<Rightarrow> bool" where
  "matchesProcess fileId f \<longleftrightarrow>
     prefix (fileId @ ''.'') f \<or> sublist (''_'' @ fileId @ ''.'') f"

text \<open>
  \<^verbatim>\<open>GET /:fileId\<close>:
  \<^verbatim>\<open>nameWithoutExt === fileId || nameWithoutExt.includes(`_${fileId}`)\<close>
  with \<^verbatim>\<open>nameWithoutExt = path.basename(f, path.extname(f))\<close>.
\<close>

definition matchesRetrieve :: "string \<Rightarrow> string \<Rightarrow> bool" where
  "matchesRetrieve fileId f \<longleftrightarrow>
     (let nameWithoutExt = basename f (extname f)
      in nameWithoutExt = fileId \<or> sublist (''_'' @ fileId) nameWithoutExt)"

text \<open>\<^verbatim>\<open>DELETE /:fileId\<close> repeats the predicate of the retrieval handler.\<close>

definition matchesDelete :: "string \<Rightarrow> string \<Rightarrow> bool" where
  "matchesDelete fileId f \<longleftrightarrow>
     (let nameWithoutExt = basename f (extname f)
      in nameWithoutExt = fileId \<or> sublist (''_'' @ fileId) nameWithoutExt)"

subsection \<open>Content types\<close>

text \<open>
  Both tables are object literals indexed with \<^verbatim>\<open>table[ext]\<close>. Such a read finds the
  own property, else a member inherited from \<^verbatim>\<open>Object.prototype\<close> (a truthy value that is
  not a string), else undefined.
\<close>

definition objectPrototypeMembers :: "string list" where
  "objectPrototypeMembers =
     [''constructor'', ''__defineGetter__'', ''__defineSetter__'', ''hasOwnProperty'',
      ''__lookupGetter__'', ''__lookupSetter__'', ''isPrototypeOf'', ''propertyIsEnumerable'',
      ''toString'', ''valueOf'', ''__proto__'', ''toLocaleString'']"

datatype lookup = Own string | Inherited string | Missing

definition recordGet :: "(string \<times> string) list \<Rightarrow> string \<Rightarrow> lookup" where
  "recordGet tbl k =
     (case map_of tbl k of
        Some v \<Rightarrow> Own v
      | None \<Rightarrow> if k \<in> set objectPrototypeMembers then Inherited k else Missing)"

definition mimeTypes :: "(string \<times> string) list" where
  "mimeTypes =
     [(''.jpg'', ''image/jpeg''), (''.jpeg'', ''image/jpeg''), (''.png'', ''image/png''),
      (''.gif'', ''image/gif''), (''.webp'', ''image/webp''), (''.heic'', ''image/heic''),
      (''.heif'', ''image/heif'')]"

text \<open>\<^verbatim>\<open>getMimeType\<close> of the extraction service: \<^verbatim>\<open>mimeTypes[ext] || 'image/jpeg'\<close>.\<close>

definition getMimeType :: "string \<Rightarrow> lookup" where
  "getMimeType ext =
     (case recordGet mimeTypes ext of
        Own v \<Rightarrow> if v \<noteq> [] then Own v else Own ''image/jpeg''
      | Inherited m \<Rightarrow> Inherited m
      | Missing \<Rightarrow> Own ''image/jpeg'')"

definition contentTypeMap :: "(string \<times> string) list" where
  "contentTypeMap =
     [(''.jpg'', ''image/jpeg''), (''.jpeg'', ''image/jpeg''), (''.png'', ''image/png''),
      (''.gif'', ''image/gif''), (''.webp'', ''image/webp''), (''.heic'', ''image/heic''),
      (''.heif'', ''image/heif'')]"

text \<open>
  The retrieval handler: \<^verbatim>\<open>contentTypeMap[ext] || 'application/octet-stream'\<close>.
\<close>

definition contentTypeOf :: "string \<Rightarrow> lookup" where
  "contentTypeOf ext =
     (case recordGet contentTypeMap ext of
        Own v \<Rightarrow> if v \<noteq> [] then Own v else Own ''application/octet-stream''
      | Inherited m \<Rightarrow> Inherited m
      | Missing \<Rightarrow> Own ''application/octet-stream'')"

text \<open>What \<^verbatim>\<open>path.extname\<close> can return: the empty string or a string that starts with a dot.\<close>

definition isExtension :: "string \<Rightarrow> bool" where
  "isExtension ext \<longleftrightarrow> ext = [] \<or> hd ext = CHR ''.''"

subsection \<open>Receipt router: retrieval and deletion\<close>

text \<open>
  The storage directory is the list of its entries in the order \<^verbatim>\<open>fs.readdirSync\<close>
  returns them, each with the file's bytes. A handler answers with an error envelope
  (HTTP status and \<^verbatim>\<open>reason\<close>) or with its payload.
\<close>

type_synonym directory = "(string \<times> string) list"

datatype 'a response = Failure nat string | Success 'a

record served =
  servedFile :: string
  contentType :: lookup
  cacheControl :: string
  body :: string

text \<open>
  \<^verbatim>\<open>handlers.get('/:fileId')\<close>. \<open>bootstrap\<close> is the answer of \<^verbatim>\<open>needsBootstrap()\<close>;
  \<open>lower\<close> is \<^verbatim>\<open>String.prototype.toLowerCase\<close>. The handler takes the extension of
  \<^verbatim>\<open>path.join(receiptStoragePath, receiptFile)\<close>, which is the extension of the entry's
  name, the last component of that path. \<^verbatim>\<open>fs.existsSync\<close> is the look-up of the name in
  the directory.
\<close>

definition handleGet ::
  "(string \<Rightarrow> string) \<Rightarrow> bool \<Rightarrow> directory \<Rightarrow> string \<Rightarrow> served response" where
  "handleGet lower bootstrap files fileId =
     (if bootstrap then Failure 500 ''not-bootstrapped''
      else if fileId = [] then Failure 400 ''missing-file-id''
      else case find (matchesRetrieve fileId) (map fst files) of
          None \<Rightarrow> Failure 404 ''file-not-found''
        | Some receiptFile \<Rightarrow>
            (case map_of files receiptFile of
               None \<Rightarrow> Failure 404 ''file-not-found''
             | Some bytes \<Rightarrow>
                 Success \<lparr> servedFile = receiptFile,
                           contentType = contentTypeOf (lower (extname receiptFile)),
                           cacheControl = ''private, max-age=86400'',
                           body = bytes \<rparr>))"

text \<open>
  \<^verbatim>\<open>handlers.delete('/:fileId')\<close>: the first matching entry is unlinked; the result is
  the answer and the directory afterwards.
\<close>

definition unlink :: "string \<Rightarrow> directory \<Rightarrow> directory" where
  "unlink name files = filter (\<lambda>entry. fst entry \<noteq> name) files"

definition handleDelete :: "bool \<Rightarrow> directory \<Rightarrow> string \<Rightarrow> string response \<times> directory" where
  "handleDelete bootstrap files fileId =
     (if bootstrap then (Failure 500 ''not-bootstrapped'', files)
      else if fileId = [] then (Failure 400 ''missing-file-id'', files)
      else case find (matchesDelete fileId) (map fst files) of
          None \<Rightarrow> (Failure 404 ''file-not-found'', files)
        | Some receiptFile \<Rightarrow> (Success ''Receipt deleted successfully'', unlink receiptFile files))"

text \<open>
  \<^verbatim>\<open>handlers.post('/process')\<close> up to the call of the extraction service: the entry the
  identifier resolves to, which is the file handed to \<^verbatim>\<open>processReceipt\<close>.
  \<open>categories\<close> is \<open>None\<close> when the body has no \<^verbatim>\<open>categories\<close> array.
\<close>

definition resolveProcess ::
  "bool \<Rightarrow> directory \<Rightarrow> string \<Rightarrow> 'c list option \<Rightarrow> string response" where
  "resolveProcess bootstrap files fileId categories =
     (if bootstrap then Failure 500 ''not-bootstrapped''
      else if fileId = [] then Failure 400 ''missing-file-id''
      else if categories = None then Failure 400 ''missing-categories''
      else case find (matchesProcess fileId) (map fst files) of
          None \<Rightarrow> Failure 404 ''file-not-found''
        | Some receiptFile \<Rightarrow> Success receiptFile)"

text \<open>
  What the process handler adds to the extraction result in its answer:
  \<^verbatim>\<open>receiptUrl: `/receipt/${fileId}`\<close>, \<^verbatim>\<open>fileId\<close>, \<^verbatim>\<open>filename: receiptFile\<close> and
  \<^verbatim>\<open>extension: path.extname(receiptFile)\<close>.
\<close>

record processInfo =
  info_receiptUrl :: string
  info_fileId :: string
  info_filename :: string
  info_extension :: string

definition processInfoOf :: "string \<Rightarrow> string \<Rightarrow> processInfo" where
  "processInfoOf fileId receiptFile =
     \<lparr> info_receiptUrl = ''/receipt/'' @ fileId, info_fileId = fileId,
       info_filename = receiptFile, info_extension = extname receiptFile \<rparr>"


text \<open>
  The routes are documented in the router as \<^verbatim>\<open>GET /receipt/:fileId\<close> and
  \<^verbatim>\<open>DELETE /receipt/:fileId\<close>: the parameter is the one path segment after
  \<^verbatim>\<open>/receipt/\<close>.
\<close>

definition routeFileId :: "string \<Rightarrow> string option" where
  "routeFileId urlPath =
     (if prefix ''/receipt/'' urlPath \<and> CHR ''/'' \<notin> set (drop 9 urlPath)
      then Some (drop 9 urlPath) else None)"

subsection \<open>Extraction engine\<close>

text \<open>
  \<^verbatim>\<open>content.match(/\{[\s\S]*\}/)\<close>: the match starts at the first opening brace and,
  the star being greedy, ends at the last closing brace after it; there is no match when
  no closing brace follows the first opening brace.
\<close>

definition jsonMatch :: "string \<Rightarrow> string option" where
  "jsonMatch content =
     (let fromBrace = dropWhile (\<lambda>c. c \<noteq> CHR ''{'') content;
          upToBrace = rev (dropWhile (\<lambda>c. c \<noteq> CHR ''}'') (rev fromBrace))
      in if upToBrace = [] then None else Some upToBrace)"

text \<open>
  The errors \<^verbatim>\<open>processReceipt\<close> throws, by throw site: the missing API key, the missing
  image, the inner \<^verbatim>\<open>catch\<close> (\<^verbatim>\<open>Failed to parse receipt data: ...\<close>, with the inner
  message) and every other error inside the outer \<^verbatim>\<open>try\<close>
  (\<^verbatim>\<open>Receipt processing failed: ...\<close>).
\<close>

datatype error = ConfigError | NotFoundError | ParseError string | ProcessingError string

text \<open>
  The parsing block. \<open>jsonParse\<close> is \<^verbatim>\<open>JSON.parse\<close>: the parsed value, or the message
  of the SyntaxError it throws.
\<close>

definition parseResponse :: "(string \<Rightarrow> string + jsval) \<Rightarrow> string \<Rightarrow> error + jsval" where
  "parseResponse jsonParse content =
     (case jsonMatch content of
        None \<Rightarrow> Inl (ParseError ''No JSON found in response'')
      | Some jsonText \<Rightarrow>
          (case jsonParse jsonText of
             Inl message \<Rightarrow> Inl (ParseError message)
           | Inr parsedData \<Rightarrow> Inr parsedData))"

text \<open>
  The callback of \<^verbatim>\<open>result.expenses.map\<close>. \<open>today\<close> is
  \<^verbatim>\<open>new Date().toISOString().split('T')[0]\<close>. The result is \<open>None\<close> when a property read
  throws.
\<close>

definition normalizeExpense :: "string \<Rightarrow> jsval \<Rightarrow> jsval \<Rightarrow> jsval option" where
  "normalizeExpense today parsedData expense =
     (if readable expense \<and> readable parsedData then
        Some (JSObject
          [(''amount'', orElse (field expense ''amount'') (JSNumber (Finite 0))),
           (''merchant'',
              orElse (orElse (field parsedData ''merchant'') (field expense ''merchant''))
                (JSString [])),
           (''date'',
              orElse (orElse (field expense ''date'') (field parsedData ''date''))
                (JSString today)),
           (''categoryId'', orElse (field expense ''categoryId'') JSNull),
           (''categoryName'', orElse (field expense ''categoryName'') (JSString ''Uncategorized'')),
           (''note'', orElse (field expense ''note'') (JSString [])),
           (''confidence'', orElse (field expense ''confidence'') (JSNumber (Finite (1 / 2))))])
      else None)"

text \<open>
  The block "Validate and normalize the response". \<^verbatim>\<open>result.expenses.map\<close> throws when
  \<^verbatim>\<open>parsedData.expenses\<close> is truthy and not an array.
\<close>

definition normalizeResult :: "string \<Rightarrow> string \<Rightarrow> jsval \<Rightarrow> jsval option" where
  "normalizeResult today content parsedData =
     (if \<not> readable parsedData then None
      else case orElse (field parsedData ''expenses'') (JSArray []) of
          JSArray expenses \<Rightarrow>
            (case those (map (normalizeExpense today parsedData) expenses) of
               None \<Rightarrow> None
             | Some normalized \<Rightarrow>
                 Some (JSObject
                   [(''expenses'', JSArray normalized),
                    (''totalAmount'',
                       orElse (field parsedData ''totalAmount'') (JSNumber (Finite 0))),
                    (''receiptDate'', orElse (field parsedData ''date'') JSNull),
                    (''merchant'', orElse (field parsedData ''merchant'') JSNull),
                    (''confidence'',
                       orElse (field parsedData ''confidence'') (JSNumber (Finite (1 / 2)))),
                    (''rawResponse'', JSString content)]))
        | _ \<Rightarrow> None)"

record category =
  category_id :: string
  category_name :: string

fun joinLines :: "string list \<Rightarrow> string" where
  "joinLines [] = []"
| "joinLines [l] = l"
| "joinLines (l # ls) = l @ [CHR 0x0A] @ joinLines ls"

definition categoryList :: "category list \<Rightarrow> string" where
  "categoryList categories =
     joinLines (map (\<lambda>cat. ''- '' @ category_name cat @ '' (id: '' @ category_id cat @ '')'')
       categories)"

text \<open>
  What \<^verbatim>\<open>processReceipt\<close> takes from outside: the configured API key, the file system
  (\<open>None\<close> when the image does not exist), \<^verbatim>\<open>toLowerCase\<close>, the model call (given the
  MIME label, the image bytes and the category list of the prompt, it fails with a message
  or returns the content of the first choice, if any), \<^verbatim>\<open>JSON.parse\<close> and the current
  date.
\<close>

record environment =
  apiKey :: "string option"
  readImage :: "string \<Rightarrow> string option"
  toLowerCase :: "string \<Rightarrow> string"
  callModel :: "lookup \<Rightarrow> string \<Rightarrow> string \<Rightarrow> string + string option"
  jsonParse :: "string \<Rightarrow> string + jsval"
  currentDate :: string

text \<open>Truthiness of an optional string: absent and empty are falsy.\<close>

fun present :: "string option \<Rightarrow> bool" where
  "present None = False"
| "present (Some s) = (s \<noteq> [])"

definition processReceipt :: "environment \<Rightarrow> string \<Rightarrow> category list \<Rightarrow> error + jsval" where
  "processReceipt env imagePath categories =
     (if \<not> present (apiKey env) then Inl ConfigError
      else case readImage env imagePath of
          None \<Rightarrow> Inl NotFoundError
        | Some imageBuffer \<Rightarrow>
            (let ext = toLowerCase env (extname imagePath);
                 mimeType = getMimeType ext
             in case callModel env mimeType imageBuffer (categoryList categories) of
                  Inl message \<Rightarrow> Inl (ProcessingError message)
                | Inr response \<Rightarrow>
                    if \<not> present response
                    then Inl (ProcessingError ''No response from OpenAI API'')
                    else
                      (case parseResponse (jsonParse env) (the response) of
                         Inl e \<Rightarrow> Inl e
                       | Inr parsedData \<Rightarrow>
                           (case normalizeResult (currentDate env) (the response) parsedData of
                              None \<Rightarrow> Inl (ProcessingError ''TypeError'')
                            | Some result \<Rightarrow> Inr result))))"

text \<open>
  Following the spec's words ("the first balanced JSON object"): starting at an opening
  brace, the text up to the closing brace that brings the nesting depth back to zero,
  braces inside string literals not counted; the first opening brace that has one wins.
\<close>

fun scanBalanced :: "nat \<Rightarrow> bool \<Rightarrow> bool \<Rightarrow> string \<Rightarrow> string \<Rightarrow> string option" where
  "scanBalanced depth inString escaped acc [] = None"
| "scanBalanced depth inString escaped acc (c # cs) =
     (if inString then
        (if escaped then scanBalanced depth True False (c # acc) cs
         else if c = CHR 0x5C then scanBalanced depth True True (c # acc) cs
         else if c = CHR 0x22 then scanBalanced depth False False (c # acc) cs
         else scanBalanced depth True False (c # acc) cs)
      else if c = CHR 0x22 then scanBalanced depth True False (c # acc) cs
      else if c = CHR ''{'' then scanBalanced (Suc depth) False False (c # acc) cs
      else if c = CHR ''}'' then
        (if depth \<le> 1 then Some (rev (c # acc))
         else scanBalanced (depth - 1) False False (c # acc) cs)
      else scanBalanced depth False False (c # acc) cs)"

fun spec_firstBalancedObject :: "string \<Rightarrow> string option" where
  "spec_firstBalancedObject [] = None"
| "spec_firstBalancedObject (c # cs) =
     (if c = CHR ''{'' then
        (case scanBalanced 0 False False [] (c # cs) of
           Some object \<Rightarrow> Some object
         | None \<Rightarrow> spec_firstBalancedObject cs)
      else spec_firstBalancedObject cs)"







subsection \<open>Reconciliation: the review component\<close>

text \<open>
  \<^verbatim>\<open>interface EditableExpense extends ReceiptExpense\<close>, with the optional fields as
  options. The fields \<^verbatim>\<open>id\<close> and \<^verbatim>\<open>note\<close> carry a prime.
\<close>

record expense =
  amount :: jsnum
  merchant :: string
  date :: string
  categoryId :: "string option"
  categoryName :: string
  note' :: string
  confidence :: jsnum
  id' :: string
  account :: "string option"
  payee :: "string option"

record payeeEntity =
  payee_id :: string
  payee_name :: string

text \<open>The transaction object built in \<^verbatim>\<open>handleSave\<close>.\<close>

record transaction =
  tx_id :: string
  tx_account :: "string option"
  tx_date :: string
  tx_amount :: jsnum
  tx_payee :: "string option"
  tx_category :: "string option"
  tx_notes :: string
  tx_cleared :: bool

text \<open>
  The messages \<^verbatim>\<open>handleSave\<close> sends: \<^verbatim>\<open>send('payee-create', {name})\<close> and
  \<^verbatim>\<open>send('transactions-batch-update', {added, updated: [], deleted: []})\<close>, the latter
  represented by its \<^verbatim>\<open>added\<close> list.
\<close>

datatype request = PayeeCreate string | TransactionsBatchUpdate "transaction list"

text \<open>
  The collaborators of \<^verbatim>\<open>handleSave\<close>. Each endpoint sees the requests sent before it
  and either rejects with a message or answers: \<open>payeeCreate\<close> with the \<^verbatim>\<open>id\<close>
  property of its reply, \<open>batchUpdate\<close> with nothing (\<open>Some message\<close> is a rejection).
  \<open>tempId k\<close> is the string \<^verbatim>\<open>`temp-${Date.now()}-${Math.random()}`\<close> of the
  \<open>k\<close>-th transaction, \<open>lowerCase\<close> is \<^verbatim>\<open>toLowerCase\<close>.
\<close>

record services =
  payeeCreate :: "request list \<Rightarrow> string \<Rightarrow> string + string option"
  batchUpdate :: "request list \<Rightarrow> transaction list \<Rightarrow> string option"
  tempId :: "nat \<Rightarrow> string"
  lowerCase :: "string \<Rightarrow> string"

text \<open>How \<^verbatim>\<open>handleSave\<close> ends: with \<^verbatim>\<open>setError\<close> or with a navigation.\<close>

datatype outcome = ShowError string | NavigateToAccount string | NavigateBack

text \<open>
  The block "Create or find payee" of the loop body: the requests sent so far and the
  expense, to the requests sent afterwards and the payee id (or the message of the
  rejection).
\<close>

definition resolvePayee ::
  "services \<Rightarrow> payeeEntity list \<Rightarrow> request list \<Rightarrow> expense
     \<Rightarrow> request list \<times> (string + string option)" where
  "resolvePayee sv payees sent e =
     (if \<not> present (payee e) \<and> merchant e \<noteq> [] then
        (case find (\<lambda>p. lowerCase sv (payee_name p) = lowerCase sv (merchant e)) payees of
           Some existingPayee \<Rightarrow> (sent, Inr (Some (payee_id existingPayee)))
         | None \<Rightarrow>
             (case payeeCreate sv sent (merchant e) of
                Inl message \<Rightarrow> (sent @ [PayeeCreate (merchant e)], Inl message)
              | Inr newId \<Rightarrow> (sent @ [PayeeCreate (merchant e)], Inr newId)))
      else (sent, Inr (payee e)))"

text \<open>
  The loop \<^verbatim>\<open>for (const expense of expenses)\<close>: \<open>k\<close> counts the iterations, \<open>sent\<close>
  are the requests sent so far and \<open>transactionsToAdd\<close> the transactions pushed so far.
\<close>

fun buildTransactions ::
  "services \<Rightarrow> payeeEntity list \<Rightarrow> string \<Rightarrow> nat \<Rightarrow> request list \<Rightarrow> transaction list
     \<Rightarrow> expense list \<Rightarrow> request list \<times> (string + transaction list)" where
  "buildTransactions sv payees fullReceiptUrl k sent transactionsToAdd [] =
     (sent, Inr transactionsToAdd)"
| "buildTransactions sv payees fullReceiptUrl k sent transactionsToAdd (e # es) =
     (if \<not> present (account e) then (sent, Inl ''All expenses must have an account'')
      else case resolvePayee sv payees sent e of
          (sent', Inl message) \<Rightarrow> (sent', Inl message)
        | (sent', Inr payeeId) \<Rightarrow>
            buildTransactions sv payees fullReceiptUrl (Suc k) sent'
              (transactionsToAdd @
                 [\<lparr> tx_id = tempId sv k, tx_account = account e, tx_date = date e,
                    tx_amount = amount e, tx_payee = payeeId, tx_category = categoryId e,
                    tx_notes = fullReceiptUrl, tx_cleared = False \<rparr>])
              es)"

text \<open>
  \<^verbatim>\<open>handleSave\<close>: the requests it sends and how it ends. \<open>accountId\<close> is the query
  parameter, \<open>payees\<close> the list the \<^verbatim>\<open>usePayees\<close> hook gave to this render.
\<close>

definition handleSave ::
  "services \<Rightarrow> payeeEntity list \<Rightarrow> string option \<Rightarrow> string \<Rightarrow> expense list
     \<Rightarrow> request list \<times> outcome" where
  "handleSave sv payees accountId fullReceiptUrl expenses =
     (case buildTransactions sv payees fullReceiptUrl 0 [] [] expenses of
        (sent, Inl message) \<Rightarrow> (sent, ShowError message)
      | (sent, Inr transactionsToAdd) \<Rightarrow>
          (case batchUpdate sv sent transactionsToAdd of
             Some message \<Rightarrow> (sent @ [TransactionsBatchUpdate transactionsToAdd], ShowError message)
           | None \<Rightarrow>
               (sent @ [TransactionsBatchUpdate transactionsToAdd],
                let targetAccountId =
                      (if present accountId then accountId
                       else case expenses of [] \<Rightarrow> None | e # _ \<Rightarrow> account e)
                in case targetAccountId of
                     None \<Rightarrow> NavigateBack
                   | Some a \<Rightarrow> if a = [] then NavigateBack else NavigateToAccount a)))"

text \<open>
  The gate of the Save button:
  \<^verbatim>\<open>canSave = expenses.length > 0 && expenses.every(e => e.account)\<close>.
\<close>

definition canSave :: "expense list \<Rightarrow> bool" where
  "canSave expenses \<longleftrightarrow> expenses \<noteq> [] \<and> list_all (\<lambda>e. present (account e)) expenses"

text \<open>
  The Save button, \<^verbatim>\<open><Button onPress={handleSave} isDisabled={!canSave}>\<close>, is the only
  caller of \<^verbatim>\<open>handleSave\<close>: a press runs \<^verbatim>\<open>handleSave\<close> when \<^verbatim>\<open>canSave\<close> holds and
  does nothing otherwise. The result is the requests sent and how the press ends, if it
  does anything.
\<close>

definition pressSave ::
  "services \<Rightarrow> payeeEntity list \<Rightarrow> string option \<Rightarrow> string \<Rightarrow> expense list
     \<Rightarrow> request list \<times> outcome option" where
  "pressSave sv payees accountId fullReceiptUrl expenses =
     (if canSave expenses
      then (fst (handleSave sv payees accountId fullReceiptUrl expenses),
            Some (snd (handleSave sv payees accountId fullReceiptUrl expenses)))
      else ([], None))"


text \<open>The transactions of the batches a run has sent, and the payee names it asked to create.\<close>

fun submitted :: "request list \<Rightarrow> transaction list" where
  "submitted [] = []"
| "submitted (TransactionsBatchUpdate added # rs) = added @ submitted rs"
| "submitted (PayeeCreate name # rs) = submitted rs"

fun created :: "request list \<Rightarrow> string list" where
  "created [] = []"
| "created (PayeeCreate name # rs) = name # created rs"
| "created (TransactionsBatchUpdate added # rs) = created rs"

text \<open>
  \<^verbatim>\<open>updateExpense(id, field, value)\<close>. The pair of field name and value is one value of
  \<open>assignment\<close>, so that each field gets a value of its type; \<open>Other\<close> is a name
  outside the interface, which the spread adds without touching the declared fields.
\<close>

datatype fieldName =
    FAmount | FMerchant | FDate | FCategoryId | FCategoryName | FNote | FConfidence
  | FId | FAccount | FPayee | FOther string

datatype assignment =
    Amount jsnum
  | Merchant string
  | Date string
  | CategoryId "string option"
  | CategoryName string
  | Note string
  | Confidence jsnum
  | Id string
  | Account "string option"
  | Payee "string option"
  | Other string

fun nameOf :: "assignment \<Rightarrow> fieldName" where
  "nameOf (Amount v) = FAmount"
| "nameOf (Merchant v) = FMerchant"
| "nameOf (Date v) = FDate"
| "nameOf (CategoryId v) = FCategoryId"
| "nameOf (CategoryName v) = FCategoryName"
| "nameOf (Note v) = FNote"
| "nameOf (Confidence v) = FConfidence"
| "nameOf (Id v) = FId"
| "nameOf (Account v) = FAccount"
| "nameOf (Payee v) = FPayee"
| "nameOf (Other k) = FOther k"

text \<open>\<^verbatim>\<open>{ ...expense, [field]: value }\<close>.\<close>

fun setField :: "assignment \<Rightarrow> expense \<Rightarrow> expense" where
  "setField (Amount v) e = e\<lparr>amount := v\<rparr>"
| "setField (Merchant v) e = e\<lparr>merchant := v\<rparr>"
| "setField (Date v) e = e\<lparr>date := v\<rparr>"
| "setField (CategoryId v) e = e\<lparr>categoryId := v\<rparr>"
| "setField (CategoryName v) e = e\<lparr>categoryName := v\<rparr>"
| "setField (Note v) e = e\<lparr>note' := v\<rparr>"
| "setField (Confidence v) e = e\<lparr>confidence := v\<rparr>"
| "setField (Id v) e = e\<lparr>id' := v\<rparr>"
| "setField (Account v) e = e\<lparr>account := v\<rparr>"
| "setField (Payee v) e = e\<lparr>payee := v\<rparr>"
| "setField (Other k) e = e"

text \<open>Reading a declared field back as an assignment, to compare fields one by one.\<close>

fun getField :: "fieldName \<Rightarrow> expense \<Rightarrow> assignment" where
  "getField FAmount e = Amount (amount e)"
| "getField FMerchant e = Merchant (merchant e)"
| "getField FDate e = Date (date e)"
| "getField FCategoryId e = CategoryId (categoryId e)"
| "getField FCategoryName e = CategoryName (categoryName e)"
| "getField FNote e = Note (note' e)"
| "getField FConfidence e = Confidence (confidence e)"
| "getField FId e = Id (id' e)"
| "getField FAccount e = Account (account e)"
| "getField FPayee e = Payee (payee e)"
| "getField (FOther k) e = Other k"

definition updateExpense :: "string \<Rightarrow> assignment \<Rightarrow> expense list \<Rightarrow> expense list" where
  "updateExpense eid a prev =
     map (\<lambda>expense. if id' expense = eid then setField a expense else expense) prev"

subsection \<open>Concrete inputs\<close>

text \<open>
  \<^verbatim>\<open>toLowerCase\<close> on strings of ASCII characters, and collaborators that always answer
  (with a fresh payee id for each \<^verbatim>\<open>payee-create\<close>) or always reject, to run the functions
  above on concrete inputs.
\<close>

definition asciiLower :: "string \<Rightarrow> string" where
  "asciiLower s =
     map (\<lambda>c. case map_of (zip ''ABCDEFGHIJKLMNOPQRSTUVWXYZ'' ''abcdefghijklmnopqrstuvwxyz'') c of
                 Some l \<Rightarrow> l | None \<Rightarrow> c) s"

definition answeringServices :: services where
  "answeringServices =
     \<lparr> payeeCreate =
         (\<lambda>sent name. Inr (Some (''payee-'' @ replicate (length (created sent)) CHR ''i''))),
       batchUpdate = (\<lambda>sent added. None),
       tempId = (\<lambda>k. ''temp-'' @ replicate k CHR ''i''),
       lowerCase = asciiLower \<rparr>"


definition sampleExpense :: "string \<Rightarrow> string option \<Rightarrow> string \<Rightarrow> expense" where
  "sampleExpense i acc m =
     \<lparr> amount = Finite 1200, merchant = m, date = ''2024-01-01'', categoryId = Some ''c1'',
       categoryName = ''Groceries'', note' = ''milk, eggs'', confidence = Finite (23 / 25),
       id' = i, account = acc, payee = None \<rparr>"

text \<open>
  A stand-in for \<^verbatim>\<open>JSON.parse\<close> that agrees with it on the text \<^verbatim>\<open>{}\<close> and on every
  text that is not JSON.
\<close>

definition parseEmptyObjectOnly :: "string \<Rightarrow> string + jsval" where
  "parseEmptyObjectOnly s = (if s = ''{}'' then Inr (JSObject []) else Inl ''Unexpected token'')"

text \<open>
  A parsed response as the prompt asks for it, and what the normalization returns for it
  when the raw text is \<^verbatim>\<open>raw\<close>.
\<close>

definition sampleParsed :: jsval where
  "sampleParsed =
     JSObject
       [(''merchant'', JSString ''Shop''), (''date'', JSString ''2024-01-01''),
        (''totalAmount'', JSNumber (Finite 1200)),
        (''expenses'',
           JSArray
             [JSObject
                [(''amount'', JSNumber (Finite 1200)), (''categoryId'', JSString ''c1''),
                 (''categoryName'', JSString ''Groceries''), (''note'', JSString ''milk, eggs''),
                 (''confidence'', JSNumber (Finite (23 / 25)))]]),
        (''confidence'', JSNumber (Finite (23 / 25)))]"

definition sampleResult :: jsval where
  "sampleResult =
     JSObject
       [(''expenses'',
           JSArray
             [JSObject
                [(''amount'', JSNumber (Finite 1200)), (''merchant'', JSString ''Shop''),
                 (''date'', JSString ''2024-01-01''), (''categoryId'', JSString ''c1''),
                 (''categoryName'', JSString ''Groceries''), (''note'', JSString ''milk, eggs''),
                 (''confidence'', JSNumber (Finite (23 / 25)))]]),
        (''totalAmount'', JSNumber (Finite 1200)),
        (''receiptDate'', JSString ''2024-01-01''),
        (''merchant'', JSString ''Shop''),
        (''confidence'', JSNumber (Finite (23 / 25))),
        (''rawResponse'', JSString ''raw'')]"

text \<open>
  An environment whose model accepts only images labelled \<^verbatim>\<open>image/jpeg\<close> and then
  answers \<^verbatim>\<open>{}\<close>, with one stored image of an extension outside the tables.
\<close>

definition sampleEnvironment :: environment where
  "sampleEnvironment =
     \<lparr> apiKey = Some ''key'',
       readImage = (\<lambda>p. if p = ''receipts/r1.bmp'' then Some ''BM'' else None),
       toLowerCase = asciiLower,
       callModel =
         (\<lambda>label image categories.
            if label = Own ''image/jpeg'' then Inr (Some ''{}'') else Inl ''unsupported image type''),
       jsonParse = parseEmptyObjectOnly,
       currentDate = ''2024-01-02'' \<rparr>"

section \<open>Properties\<close>

subsection \<open>File names\<close>

lemma lastPart_no_slash: "CHR ''/'' \<notin> set f \<Longrightarrow> lastPart f = f"
proof -
  assume a: "CHR ''/'' \<notin> set f"
  have "dropWhile (\<lambda>c. c = CHR ''/'') (rev f) = rev f"
    using a by (cases "rev f") (auto simp: dropWhile_eq_self_iff)
  moreover have "takeWhile (\<lambda>c. c \<noteq> CHR ''/'') (rev f) = rev f"
    using a by (auto simp: takeWhile_eq_all_conv)
  ultimately show ?thesis unfolding lastPart_def by (simp only: rev_rev_ident)
qed

lemma split_last_dot:
  assumes "CHR ''.'' \<in> set c"
  shows "\<exists>before. c = before @ CHR ''.'' # rev (takeWhile (\<lambda>x. x \<noteq> CHR ''.'') (rev c))"
proof -
  let ?P = "\<lambda>x. x \<noteq> CHR ''.''"
  have ne: "dropWhile ?P (rev c) \<noteq> []" using assms by (simp add: dropWhile_eq_Nil_conv)
  then obtain y ys where d: "dropWhile ?P (rev c) = y # ys" by (cases "dropWhile ?P (rev c)") auto
  have "\<not> ?P (hd (dropWhile ?P (rev c)))" using ne by (rule hd_dropWhile)
  with d have y: "y = CHR ''.''" by simp
  have "rev c = takeWhile ?P (rev c) @ dropWhile ?P (rev c)" by simp
  with d y have "rev c = takeWhile ?P (rev c) @ CHR ''.'' # ys" by simp
  then have "rev (rev c) = rev (takeWhile ?P (rev c) @ CHR ''.'' # ys)" by (rule arg_cong)
  then have "c = rev ys @ CHR ''.'' # rev (takeWhile ?P (rev c))" by simp
  then show ?thesis by blast
qed

text \<open>
  A directory entry with an extension is its identifier followed by the extension, and
  the extension starts with a dot.
\<close>

lemma extname_split:
  assumes "CHR ''/'' \<notin> set f" and "extname f \<noteq> []"
  shows "f = fileIdOf f @ extname f \<and> hd (extname f) = CHR ''.'' \<and> fileIdOf f \<noteq> []"
proof -
  let ?a = "rev (takeWhile (\<lambda>x. x \<noteq> CHR ''.'') (rev f))"
  have lp: "lastPart f = f" using assms(1) by (rule lastPart_no_slash)
  have dot: "CHR ''.'' \<in> set f" using assms(2) lp by (auto simp: extname_def Let_def split: if_splits)
  then obtain b where b: "f = b @ CHR ''.'' # ?a" using split_last_dot by blast
  have len: "length f - length ?a - 1 = length b"
  proof -
    have "length f = length b + 1 + length ?a" by (subst b) simp
    then show ?thesis by simp
  qed
  have tk: "take (length f - length ?a - 1) f = b"
    unfolding len by (subst b) simp
  have ext: "extname f = CHR ''.'' # ?a" and bne: "b \<noteq> []"
    using assms(2) lp tk by (auto simp: extname_def Let_def split: if_splits)
  have suf: "suffix (CHR ''.'' # ?a) f" by (subst (2) b) (rule suffixI, simp)
  have neq: "CHR ''.'' # ?a \<noteq> f" using bne by (subst (2) b) simp
  have le: "length (CHR ''.'' # ?a) \<le> length f" using suf by (rule suffix_length_le)
  have tk2: "take (length f - length (CHR ''.'' # ?a)) f = b"
    using tk by simp
  have "basename f (CHR ''.'' # ?a) = b"
    using suf neq le lp tk2 by (simp add: basename_def Let_def del: length_rev length_Cons)
  then have "fileIdOf f = b" by (simp add: fileIdOf_def ext)
  with b ext bne show ?thesis by simp
qed

lemma extname_isExtension: "isExtension (extname p)"
  by (simp add: extname_def isExtension_def Let_def)

lemma last_dot_split:
  assumes "CHR ''/'' \<notin> set f" and "f = b @ CHR ''.'' # a" and "CHR ''.'' \<notin> set a" and "b \<noteq> []"
    and notdd: "f \<noteq> ''..''"
  shows "extname f = CHR ''.'' # a \<and> fileIdOf f = b"
proof -
  have lp: "lastPart f = f" using assms(1) by (rule lastPart_no_slash)
  have tw: "rev (takeWhile (\<lambda>x. x \<noteq> CHR ''.'') (rev f)) = a"
  proof -
    have "rev f = rev a @ CHR ''.'' # rev b" by (simp add: assms(2))
    moreover have "takeWhile (\<lambda>x. x \<noteq> CHR ''.'') (rev a @ CHR ''.'' # rev b) = rev a"
      using assms(3) by (subst takeWhile_append2) auto
    ultimately show ?thesis by simp
  qed
  have dot: "CHR ''.'' \<in> set f" by (simp add: assms(2))
  have len: "length f - length a - 1 = length b" by (simp add: assms(2))
  have tk: "take (length f - length a - 1) f = b" unfolding len by (simp add: assms(2))
  have ext: "extname f = CHR ''.'' # a"
    unfolding extname_def Let_def lp tw tk using dot assms(4) notdd by simp
  have suf: "suffix (CHR ''.'' # a) f" unfolding assms(2) by (rule suffixI) simp
  have neq: "CHR ''.'' # a \<noteq> f" using assms(4) by (simp add: assms(2))
  have le: "length (CHR ''.'' # a) \<le> length f" using suf by (rule suffix_length_le)
  have tk2: "take (length f - length (CHR ''.'' # a)) f = b" using tk by simp
  have "basename f (CHR ''.'' # a) = b"
    using suf neq le lp tk2 by (simp add: basename_def Let_def del: length_Cons)
  then have "fileIdOf f = b" by (simp add: fileIdOf_def ext)
  with ext show ?thesis by simp
qed

lemma underscore_identifier_in_name:
  assumes "CHR ''/'' \<notin> set f" and "sublist (''_'' @ fileId @ ''.'') f"
  shows "sublist (''_'' @ fileId) (fileIdOf f)"
proof -
  from assms(2) obtain ps ss where f: "f = ps @ (''_'' @ fileId @ ''.'') @ ss"
    by (auto simp: sublist_def)
  let ?u = "ps @ ''_'' @ fileId"
  have fu: "f = ?u @ CHR ''.'' # ss" by (simp add: f)
  then have "CHR ''.'' \<in> set f" by simp
  define a where "a = rev (takeWhile (\<lambda>x. x \<noteq> CHR ''.'') (rev f))"
  from split_last_dot [OF \<open>CHR ''.'' \<in> set f\<close>] obtain b where
    b: "f = b @ CHR ''.'' # a" unfolding a_def by blast
  have a: "CHR ''.'' \<notin> set a" unfolding a_def by (auto dest: set_takeWhileD)
  from fu b have "?u @ CHR ''.'' # ss = b @ CHR ''.'' # a" by simp
  then obtain us where "(?u = b @ us \<and> us @ CHR ''.'' # ss = CHR ''.'' # a) \<or>
       (?u @ us = b \<and> CHR ''.'' # ss = us @ CHR ''.'' # a)"
    by (auto simp only: append_eq_append_conv2)
  then have "\<exists>vs. b = ?u @ vs"
  proof
    assume h: "?u = b @ us \<and> us @ CHR ''.'' # ss = CHR ''.'' # a"
    show ?thesis
    proof (cases us)
      case Nil
      with h show ?thesis by simp
    next
      case (Cons x xs)
      with h have "a = xs @ CHR ''.'' # ss" by simp
      then have "CHR ''.'' \<in> set a" by (metis in_set_conv_decomp)
      with a show ?thesis by simp
    qed
  next
    assume "?u @ us = b \<and> CHR ''.'' # ss = us @ CHR ''.'' # a"
    then show ?thesis by blast
  qed
  then obtain vs where vs: "b = ?u @ vs" by blast
  then have bne: "b \<noteq> []" by simp
  have "CHR ''_'' \<in> set f" by (simp add: f)
  then have ndd: "f \<noteq> ''..''" by auto
  from last_dot_split [OF assms(1) b a bne ndd] have "fileIdOf f = b" by simp
  moreover have "sublist (''_'' @ fileId) b" unfolding vs by (metis append.assoc sublist_appendI)
  ultimately show ?thesis by simp
qed

subsection \<open>Identifier resolution\<close>

lemma find_first:
  "find P xs = Some g \<longleftrightarrow> (\<exists>b a. xs = b @ g # a \<and> P g \<and> (\<forall>x \<in> set b. \<not> P x))"
proof (induction xs)
  case Nil
  then show ?case by simp
next
  case (Cons y ys)
  show ?case
  proof (cases "P y")
    case True
    have "(\<exists>b a. y # ys = b @ g # a \<and> P g \<and> (\<forall>x \<in> set b. \<not> P x)) \<longleftrightarrow> g = y"
    proof
      assume "\<exists>b a. y # ys = b @ g # a \<and> P g \<and> (\<forall>x \<in> set b. \<not> P x)"
      then obtain b a where h: "y # ys = b @ g # a" "\<forall>x \<in> set b. \<not> P x" by blast
      show "g = y"
      proof (cases b)
        case Nil
        with h show ?thesis by simp
      next
        case (Cons z zs)
        with h have "z = y" "\<not> P z" by simp_all
        with True show ?thesis by simp
      qed
    next
      assume "g = y"
      with True have "y # ys = [] @ g # ys \<and> P g \<and> (\<forall>x \<in> set []. \<not> P x)" by simp
      then show "\<exists>b a. y # ys = b @ g # a \<and> P g \<and> (\<forall>x \<in> set b. \<not> P x)" by blast
    qed
    with True show ?thesis by auto
  next
    case False
    have "(\<exists>b a. y # ys = b @ g # a \<and> P g \<and> (\<forall>x \<in> set b. \<not> P x)) \<longleftrightarrow>
          (\<exists>b a. ys = b @ g # a \<and> P g \<and> (\<forall>x \<in> set b. \<not> P x))"
    proof
      assume "\<exists>b a. y # ys = b @ g # a \<and> P g \<and> (\<forall>x \<in> set b. \<not> P x)"
      then obtain b a where h: "y # ys = b @ g # a" "P g" "\<forall>x \<in> set b. \<not> P x" by blast
      show "\<exists>b a. ys = b @ g # a \<and> P g \<and> (\<forall>x \<in> set b. \<not> P x)"
      proof (cases b)
        case Nil
        with h False show ?thesis by simp
      next
        case (Cons z zs)
        with h have "ys = zs @ g # a \<and> P g \<and> (\<forall>x \<in> set zs. \<not> P x)" by simp
        then show ?thesis by blast
      qed
    next
      assume "\<exists>b a. ys = b @ g # a \<and> P g \<and> (\<forall>x \<in> set b. \<not> P x)"
      then obtain b a where "ys = b @ g # a" "P g" "\<forall>x \<in> set b. \<not> P x" by blast
      with False have "y # ys = (y # b) @ g # a \<and> P g \<and> (\<forall>x \<in> set (y # b). \<not> P x)" by simp
      then show "\<exists>b a. y # ys = b @ g # a \<and> P g \<and> (\<forall>x \<in> set b. \<not> P x)" by blast
    qed
    with False Cons.IH show ?thesis by simp
  qed
qed

lemma first_exists:
  assumes "f \<in> set xs" and "P f"
  shows "\<exists>b g a. xs = b @ g # a \<and> P g \<and> (\<forall>x \<in> set b. \<not> P x)"
proof -
  from assms have "find P xs \<noteq> None" by (auto simp: find_None_iff)
  then obtain g where "find P xs = Some g" by auto
  then show ?thesis unfolding find_first by blast
qed

lemma resolveProcess_first:
  assumes "fileId \<noteq> []" and "map fst files = b @ g # a"
    and "\<forall>x \<in> set b. \<not> matchesProcess fileId x" and "matchesProcess fileId g"
  shows "resolveProcess False files fileId (Some cs) = Success g"
proof -
  have "find (matchesProcess fileId) (map fst files) = Some g"
    unfolding find_first using assms(2-4) by blast
  with assms(1) show ?thesis by (simp add: resolveProcess_def)
qed

lemma handleGet_first:
  assumes "fileId \<noteq> []" and "map fst files = b @ g # a"
    and "\<forall>x \<in> set b. \<not> matchesRetrieve fileId x" and "matchesRetrieve fileId g"
  shows "\<exists>bytes. map_of files g = Some bytes \<and>
           handleGet lower False files fileId =
             Success \<lparr> servedFile = g, contentType = contentTypeOf (lower (extname g)),
                       cacheControl = ''private, max-age=86400'', body = bytes \<rparr>"
proof -
  have f: "find (matchesRetrieve fileId) (map fst files) = Some g"
    unfolding find_first using assms(2-4) by blast
  have "g \<in> set (map fst files)" by (simp add: assms(2))
  then have "g \<in> fst ` set files" by simp
  then have "map_of files g \<noteq> None" by (simp add: map_of_eq_None_iff)
  then obtain bytes where "map_of files g = Some bytes" by auto
  with f assms(1) show ?thesis by (simp add: handleGet_def)
qed

lemma handleDelete_first:
  assumes "fileId \<noteq> []" and "map fst files = b @ g # a"
    and "\<forall>x \<in> set b. \<not> matchesDelete fileId x" and "matchesDelete fileId g"
  shows "handleDelete False files fileId =
           (Success ''Receipt deleted successfully'', unlink g files)"
proof -
  have "find (matchesDelete fileId) (map fst files) = Some g"
    unfolding find_first using assms(2-4) by blast
  with assms(1) show ?thesis by (simp add: handleDelete_def)
qed

lemma designed_match:
  assumes "CHR ''/'' \<notin> set f"
    and "extname f \<noteq> [] \<and> fileIdOf f = fileId \<or> sublist (''_'' @ fileId @ ''.'') f"
  shows "matchesProcess fileId f \<and> matchesRetrieve fileId f \<and> matchesDelete fileId f"
  using assms(2)
proof
  assume h: "extname f \<noteq> [] \<and> fileIdOf f = fileId"
  with extname_split [OF assms(1)] obtain rest where f: "f = fileId @ CHR ''.'' # rest"
    by (cases "extname f") auto
  have "prefix (fileId @ ''.'') f" by (subst f) (simp add: prefix_def)
  then have "matchesProcess fileId f" by (simp add: matchesProcess_def)
  moreover have "matchesRetrieve fileId f" "matchesDelete fileId f"
    using h by (simp_all add: matchesRetrieve_def matchesDelete_def fileIdOf_def)
  ultimately show ?thesis by simp
next
  assume h: "sublist (''_'' @ fileId @ ''.'') f"
  then have "matchesProcess fileId f" by (simp add: matchesProcess_def)
  moreover from underscore_identifier_in_name [OF assms(1) h]
  have "matchesRetrieve fileId f" "matchesDelete fileId f"
    by (simp_all add: matchesRetrieve_def matchesDelete_def fileIdOf_def)
  ultimately show ?thesis by simp
qed

text \<open>
  C1, as far as it holds. A stored file \<open>f\<close> whose name without extension equals the
  identifier, or whose name contains \<^verbatim>\<open>_\<close> + identifier + \<^verbatim>\<open>.\<close>, is accepted under that
  identifier by the tests of the process, retrieve and delete handlers. When such a file is
  stored and the identifier is not empty, each handler resolves the identifier to the first
  entry, in directory order, that its test accepts: no entry before it is accepted, the
  process handler resolves to it, the retrieval handler serves its bytes with the content
  type of its extension, and the deletion handler unlinks it.
\<close>

theorem identifier_matches_stored_file:
  assumes "CHR ''/'' \<notin> set f"
    and "extname f \<noteq> [] \<and> fileIdOf f = fileId \<or> sublist (''_'' @ fileId @ ''.'') f"
  shows "matchesProcess fileId f \<and> matchesRetrieve fileId f \<and> matchesDelete fileId f \<and>
         (f \<in> fst ` set files \<and> fileId \<noteq> [] \<longrightarrow>
            (\<exists>b g a. map fst files = b @ g # a \<and> (\<forall>x \<in> set b. \<not> matchesProcess fileId x) \<and>
               matchesProcess fileId g \<and>
               resolveProcess False files fileId (Some cs) = Success g) \<and>
            (\<exists>b g a bytes. map fst files = b @ g # a \<and>
               (\<forall>x \<in> set b. \<not> matchesRetrieve fileId x) \<and> matchesRetrieve fileId g \<and>
               map_of files g = Some bytes \<and>
               handleGet lower False files fileId =
                 Success \<lparr> servedFile = g, contentType = contentTypeOf (lower (extname g)),
                           cacheControl = ''private, max-age=86400'', body = bytes \<rparr>) \<and>
            (\<exists>b g a. map fst files = b @ g # a \<and> (\<forall>x \<in> set b. \<not> matchesDelete fileId x) \<and>
               matchesDelete fileId g \<and>
               handleDelete False files fileId =
                 (Success ''Receipt deleted successfully'', unlink g files)))"
proof -
  note m = designed_match [OF assms]
  have handlers: "(\<exists>b g a. map fst files = b @ g # a \<and> (\<forall>x \<in> set b. \<not> matchesProcess fileId x) \<and>
               matchesProcess fileId g \<and>
               resolveProcess False files fileId (Some cs) = Success g) \<and>
            (\<exists>b g a bytes. map fst files = b @ g # a \<and>
               (\<forall>x \<in> set b. \<not> matchesRetrieve fileId x) \<and> matchesRetrieve fileId g \<and>
               map_of files g = Some bytes \<and>
               handleGet lower False files fileId =
                 Success \<lparr> servedFile = g, contentType = contentTypeOf (lower (extname g)),
                           cacheControl = ''private, max-age=86400'', body = bytes \<rparr>) \<and>
            (\<exists>b g a. map fst files = b @ g # a \<and> (\<forall>x \<in> set b. \<not> matchesDelete fileId x) \<and>
               matchesDelete fileId g \<and>
               handleDelete False files fileId =
                 (Success ''Receipt deleted successfully'', unlink g files))"
    if mem: "f \<in> fst ` set files" and ne: "fileId \<noteq> []"
  proof (intro conjI)
    from mem have fm: "f \<in> set (map fst files)" by simp
    from first_exists [OF fm, of "matchesProcess fileId"] m obtain b g a where
      d: "map fst files = b @ g # a" "matchesProcess fileId g" "\<forall>x \<in> set b. \<not> matchesProcess fileId x"
      by blast
    from resolveProcess_first [OF ne d(1) d(3) d(2)] d
    show "\<exists>b g a. map fst files = b @ g # a \<and> (\<forall>x \<in> set b. \<not> matchesProcess fileId x) \<and>
               matchesProcess fileId g \<and>
               resolveProcess False files fileId (Some cs) = Success g" by blast
    from first_exists [OF fm, of "matchesRetrieve fileId"] m obtain b g a where
      d: "map fst files = b @ g # a" "matchesRetrieve fileId g" "\<forall>x \<in> set b. \<not> matchesRetrieve fileId x"
      by blast
    from handleGet_first [OF ne d(1) d(3) d(2)] d
    show "\<exists>b g a bytes. map fst files = b @ g # a \<and>
               (\<forall>x \<in> set b. \<not> matchesRetrieve fileId x) \<and> matchesRetrieve fileId g \<and>
               map_of files g = Some bytes \<and>
               handleGet lower False files fileId =
                 Success \<lparr> servedFile = g, contentType = contentTypeOf (lower (extname g)),
                           cacheControl = ''private, max-age=86400'', body = bytes \<rparr>" by blast
    from first_exists [OF fm, of "matchesDelete fileId"] m obtain b g a where
      d: "map fst files = b @ g # a" "matchesDelete fileId g" "\<forall>x \<in> set b. \<not> matchesDelete fileId x"
      by blast
    from handleDelete_first [OF ne d(1) d(3) d(2)] d
    show "\<exists>b g a. map fst files = b @ g # a \<and> (\<forall>x \<in> set b. \<not> matchesDelete fileId x) \<and>
               matchesDelete fileId g \<and>
               handleDelete False files fileId =
                 (Success ''Receipt deleted successfully'', unlink g files)" by blast
  qed
  with m show ?thesis by blast
qed

theorem identifier_matches_stored_file_witness:
  "CHR ''/'' \<notin> set ''18_anonymous_ab.png'' \<and> sublist (''_'' @ ''ab'' @ ''.'') ''18_anonymous_ab.png'' \<and>
   matchesProcess ''ab'' ''18_anonymous_ab.png'' \<and> matchesRetrieve ''ab'' ''18_anonymous_ab.png'' \<and>
   matchesDelete ''ab'' ''18_anonymous_ab.png'' \<and>
   (\<exists>b g a. map fst [(''17_anonymous_ab.jpg'', ''A''), (''18_anonymous_ab.png'', ''B'')] = b @ g # a \<and>
      matchesProcess ''ab'' g \<and>
      resolveProcess False [(''17_anonymous_ab.jpg'', ''A''), (''18_anonymous_ab.png'', ''B'')] ''ab''
        (Some ([] :: category list)) = Success g) \<and>
   resolveProcess False [(''17_anonymous_ab.jpg'', ''A''), (''18_anonymous_ab.png'', ''B'')] ''ab''
     (Some ([] :: category list)) = Success ''17_anonymous_ab.jpg'' \<and>
   handleGet asciiLower False [(''17_anonymous_ab.jpg'', ''A''), (''18_anonymous_ab.png'', ''B'')] ''ab''
     = Success \<lparr> servedFile = ''17_anonymous_ab.jpg'', contentType = Own ''image/jpeg'',
                 cacheControl = ''private, max-age=86400'', body = ''A'' \<rparr> \<and>
   handleDelete False [(''17_anonymous_ab.jpg'', ''A''), (''18_anonymous_ab.png'', ''B'')] ''ab''
     = (Success ''Receipt deleted successfully'', [(''18_anonymous_ab.png'', ''B'')]) \<and>
   extname ''17_anonymous_ab.jpg'' \<noteq> [] \<and> fileIdOf ''17_anonymous_ab.jpg'' = ''17_anonymous_ab'' \<and>
   matchesRetrieve ''17_anonymous_ab'' ''17_anonymous_ab.jpg''"
proof -
  let ?files = "[(''17_anonymous_ab.jpg'', ''A''), (''18_anonymous_ab.png'', ''B'')]"
  have h1: "CHR ''/'' \<notin> set ''18_anonymous_ab.png''" by simp
  have h2: "sublist (''_'' @ ''ab'' @ ''.'') ''18_anonymous_ab.png''" by code_simp
  then have h2': "extname ''18_anonymous_ab.png'' \<noteq> [] \<and> fileIdOf ''18_anonymous_ab.png'' = ''ab'' \<or>
      sublist (''_'' @ ''ab'' @ ''.'') ''18_anonymous_ab.png''" by blast
  have h3: "''18_anonymous_ab.png'' \<in> fst ` set ?files \<and> ''ab'' \<noteq> []" by simp
  have k1: "CHR ''/'' \<notin> set ''17_anonymous_ab.jpg''" by simp
  have k2: "extname ''17_anonymous_ab.jpg'' \<noteq> [] \<and> fileIdOf ''17_anonymous_ab.jpg'' = ''17_anonymous_ab''"
    by code_simp
  then have k2': "extname ''17_anonymous_ab.jpg'' \<noteq> [] \<and> fileIdOf ''17_anonymous_ab.jpg'' = ''17_anonymous_ab'' \<or>
      sublist (''_'' @ ''17_anonymous_ab'' @ ''.'') ''17_anonymous_ab.jpg''" by blast
  from identifier_matches_stored_file [OF h1 h2', of ?files "[] :: category list" asciiLower] h3
  have a: "matchesProcess ''ab'' ''18_anonymous_ab.png'' \<and> matchesRetrieve ''ab'' ''18_anonymous_ab.png'' \<and>
      matchesDelete ''ab'' ''18_anonymous_ab.png'' \<and>
      (\<exists>b g a. map fst ?files = b @ g # a \<and> matchesProcess ''ab'' g \<and>
        resolveProcess False ?files ''ab'' (Some ([] :: category list)) = Success g)"
    by blast
  from identifier_matches_stored_file [OF k1 k2', of "[]" "[] :: category list" asciiLower]
  have b: "matchesRetrieve ''17_anonymous_ab'' ''17_anonymous_ab.jpg''" by blast
  have c: "resolveProcess False ?files ''ab'' (Some ([] :: category list)) = Success ''17_anonymous_ab.jpg'' \<and>
     handleGet asciiLower False ?files ''ab''
     = Success \<lparr> servedFile = ''17_anonymous_ab.jpg'', contentType = Own ''image/jpeg'',
                 cacheControl = ''private, max-age=86400'', body = ''A'' \<rparr> \<and>
     handleDelete False ?files ''ab'' = (Success ''Receipt deleted successfully'', [(''18_anonymous_ab.png'', ''B'')])"
    by code_simp
  from a b c h1 h2 k2 show ?thesis by blast
qed

text \<open>
  C1, as the spec states it, fails: the identifier \<^verbatim>\<open>ab\<close> is matched to the stored file
  \<^verbatim>\<open>17_anonymous_ab.jpg\<close> by all three operations, although the file's name without
  extension is not \<^verbatim>\<open>ab\<close>.
\<close>

theorem substring_identifier_matches:
  "matchesProcess ''ab'' ''17_anonymous_ab.jpg'' \<and>
   matchesRetrieve ''ab'' ''17_anonymous_ab.jpg'' \<and>
   matchesDelete ''ab'' ''17_anonymous_ab.jpg'' \<and>
   fileIdOf ''17_anonymous_ab.jpg'' \<noteq> ''ab''"
  by code_simp

subsection \<open>Content types\<close>

lemma isExtension_not_inherited: "isExtension ext \<Longrightarrow> ext \<notin> set objectPrototypeMembers"
  by (auto simp: isExtension_def objectPrototypeMembers_def)

text \<open>
  C10. For an extension outside \<^verbatim>\<open>.jpg .jpeg .png .gif .webp .heic .heif\<close> the lookup of the
  extraction service returns \<^verbatim>\<open>image/jpeg\<close> and the one of the retrieval handler returns
  \<^verbatim>\<open>application/octet-stream\<close>. \<^verbatim>\<open>processReceipt\<close> on a readable image whose lowered
  extension is such an extension calls the model with the label \<^verbatim>\<open>image/jpeg\<close>, the bytes of
  the image and the category list, and its result is what it makes of the answer to that
  call. The retrieval handler, when the file it resolves has such a lowered extension,
  serves it as \<^verbatim>\<open>application/octet-stream\<close>.
\<close>

theorem getMimeType_unknown_extension:
  assumes "isExtension ext"
    and "ext \<notin> set [''.jpg'', ''.jpeg'', ''.png'', ''.gif'', ''.webp'', ''.heic'', ''.heif'']"
  shows "getMimeType ext = Own ''image/jpeg'' \<and>
         contentTypeOf ext = Own ''application/octet-stream'' \<and>
         (toLowerCase env (extname imagePath) = ext \<and> present (apiKey env) \<and>
          readImage env imagePath = Some imageBuffer \<longrightarrow>
            processReceipt env imagePath cs =
              (case callModel env (Own ''image/jpeg'') imageBuffer (categoryList cs) of
                 Inl message \<Rightarrow> Inl (ProcessingError message)
               | Inr response \<Rightarrow>
                   if \<not> present response
                   then Inl (ProcessingError ''No response from OpenAI API'')
                   else
                     (case parseResponse (jsonParse env) (the response) of
                        Inl e \<Rightarrow> Inl e
                      | Inr parsedData \<Rightarrow>
                          (case normalizeResult (currentDate env) (the response) parsedData of
                             None \<Rightarrow> Inl (ProcessingError ''TypeError'')
                           | Some result \<Rightarrow> Inr result)))) \<and>
         (fileId \<noteq> [] \<and> find (matchesRetrieve fileId) (map fst files) = Some g \<and>
          lower (extname g) = ext \<longrightarrow>
            (\<exists>bytes. map_of files g = Some bytes \<and>
               handleGet lower False files fileId =
                 Success \<lparr> servedFile = g, contentType = Own ''application/octet-stream'',
                           cacheControl = ''private, max-age=86400'', body = bytes \<rparr>))"
proof -
  have "map_of mimeTypes ext = None"
    using assms(2) by (simp add: mimeTypes_def)
  moreover have "map_of contentTypeMap ext = None"
    using assms(2) by (simp add: contentTypeMap_def)
  moreover have "ext \<notin> set objectPrototypeMembers"
    using assms(1) by (rule isExtension_not_inherited)
  ultimately have mime: "getMimeType ext = Own ''image/jpeg''"
    and ct: "contentTypeOf ext = Own ''application/octet-stream''"
    by (simp_all add: getMimeType_def contentTypeOf_def recordGet_def)
  have call: "processReceipt env imagePath cs =
              (case callModel env (Own ''image/jpeg'') imageBuffer (categoryList cs) of
                 Inl message \<Rightarrow> Inl (ProcessingError message)
               | Inr response \<Rightarrow>
                   if \<not> present response
                   then Inl (ProcessingError ''No response from OpenAI API'')
                   else
                     (case parseResponse (jsonParse env) (the response) of
                        Inl e \<Rightarrow> Inl e
                      | Inr parsedData \<Rightarrow>
                          (case normalizeResult (currentDate env) (the response) parsedData of
                             None \<Rightarrow> Inl (ProcessingError ''TypeError'')
                           | Some result \<Rightarrow> Inr result)))"
    if "toLowerCase env (extname imagePath) = ext \<and> present (apiKey env) \<and>
          readImage env imagePath = Some imageBuffer"
    using that mime by (simp add: processReceipt_def Let_def)
  have serve: "\<exists>bytes. map_of files g = Some bytes \<and>
               handleGet lower False files fileId =
                 Success \<lparr> servedFile = g, contentType = Own ''application/octet-stream'',
                           cacheControl = ''private, max-age=86400'', body = bytes \<rparr>"
    if h: "fileId \<noteq> [] \<and> find (matchesRetrieve fileId) (map fst files) = Some g \<and>
          lower (extname g) = ext"
  proof -
    from h have "g \<in> set (map fst files)" by (auto simp: find_Some_iff)
    then have "g \<in> fst ` set files" by simp
    then have "map_of files g \<noteq> None" by (simp add: map_of_eq_None_iff)
    then obtain bytes where "map_of files g = Some bytes" by auto
    with h ct show ?thesis by (simp add: handleGet_def)
  qed
  from mime ct call serve show ?thesis by blast
qed

theorem getMimeType_unknown_extension_witness:
  "isExtension ''.bmp'' \<and> getMimeType ''.bmp'' = Own ''image/jpeg'' \<and>
   contentTypeOf ''.bmp'' = Own ''application/octet-stream'' \<and>
   toLowerCase sampleEnvironment (extname ''receipts/r1.bmp'') = ''.bmp'' \<and>
   callModel sampleEnvironment (Own ''image/jpeg'') ''BM'' (categoryList []) = Inr (Some ''{}'') \<and>
   callModel sampleEnvironment (Own ''application/octet-stream'') ''BM'' (categoryList [])
     = Inl ''unsupported image type'' \<and>
   processReceipt sampleEnvironment ''receipts/r1.bmp'' []
     = Inr (JSObject
         [(''expenses'', JSArray []), (''totalAmount'', JSNumber (Finite 0)),
          (''receiptDate'', JSNull), (''merchant'', JSNull),
          (''confidence'', JSNumber (Finite (1 / 2))), (''rawResponse'', JSString ''{}'')]) \<and>
   handleGet asciiLower False [(''r1.bmp'', ''BM'')] ''r1''
     = Success \<lparr> servedFile = ''r1.bmp'', contentType = Own ''application/octet-stream'',
                 cacheControl = ''private, max-age=86400'', body = ''BM'' \<rparr>"
proof -
  have e: "isExtension ''.bmp''" by (simp add: isExtension_def)
  have n: "''.bmp'' \<notin> set [''.jpg'', ''.jpeg'', ''.png'', ''.gif'', ''.webp'', ''.heic'', ''.heif'']"
    by simp
  have x: "extname ''receipts/r1.bmp'' = ''.bmp''" "extname ''r1.bmp'' = ''.bmp''" by code_simp+
  have l: "asciiLower ''.bmp'' = ''.bmp''" by code_simp
  have p: "toLowerCase sampleEnvironment (extname ''receipts/r1.bmp'') = ''.bmp'' \<and>
      present (apiKey sampleEnvironment) \<and>
      readImage sampleEnvironment ''receipts/r1.bmp'' = Some ''BM''"
    by (simp add: sampleEnvironment_def x l)
  have f: "''r1'' \<noteq> [] \<and> find (matchesRetrieve ''r1'') (map fst [(''r1.bmp'', ''BM'')]) = Some ''r1.bmp'' \<and>
      asciiLower (extname ''r1.bmp'') = ''.bmp''"
    by code_simp
  note t = getMimeType_unknown_extension [OF e n, of sampleEnvironment "''receipts/r1.bmp''" "''BM''" "[]"
      "''r1''" "[(''r1.bmp'', ''BM'')]" "''r1.bmp''" asciiLower]
  from t have a: "getMimeType ''.bmp'' = Own ''image/jpeg'' \<and>
      contentTypeOf ''.bmp'' = Own ''application/octet-stream''" by blast
  have c1: "callModel sampleEnvironment (Own ''image/jpeg'') ''BM'' (categoryList []) = Inr (Some ''{}'')"
    and c2: "callModel sampleEnvironment (Own ''application/octet-stream'') ''BM'' (categoryList [])
     = Inl ''unsupported image type''"
    by (simp_all add: sampleEnvironment_def)
  from t p have "processReceipt sampleEnvironment ''receipts/r1.bmp'' [] =
              (case callModel sampleEnvironment (Own ''image/jpeg'') ''BM'' (categoryList []) of
                 Inl message \<Rightarrow> Inl (ProcessingError message)
               | Inr response \<Rightarrow>
                   if \<not> present response
                   then Inl (ProcessingError ''No response from OpenAI API'')
                   else
                     (case parseResponse (jsonParse sampleEnvironment) (the response) of
                        Inl e \<Rightarrow> Inl e
                      | Inr parsedData \<Rightarrow>
                          (case normalizeResult (currentDate sampleEnvironment) (the response) parsedData of
                             None \<Rightarrow> Inl (ProcessingError ''TypeError'')
                           | Some result \<Rightarrow> Inr result)))" by blast
  also have "\<dots> = Inr (JSObject
         [(''expenses'', JSArray []), (''totalAmount'', JSNumber (Finite 0)),
          (''receiptDate'', JSNull), (''merchant'', JSNull),
          (''confidence'', JSNumber (Finite (1 / 2))), (''rawResponse'', JSString ''{}'')])"
    unfolding c1
    by (simp add: sampleEnvironment_def parseResponse_def jsonMatch_def parseEmptyObjectOnly_def
        normalizeResult_def orElse_def)
  finally have b: "processReceipt sampleEnvironment ''receipts/r1.bmp'' []
     = Inr (JSObject
         [(''expenses'', JSArray []), (''totalAmount'', JSNumber (Finite 0)),
          (''receiptDate'', JSNull), (''merchant'', JSNull),
          (''confidence'', JSNumber (Finite (1 / 2))), (''rawResponse'', JSString ''{}'')])" .
  from t f obtain bytes where bytes: "map_of [(''r1.bmp'', ''BM'')] ''r1.bmp'' = Some bytes"
    and g: "handleGet asciiLower False [(''r1.bmp'', ''BM'')] ''r1'' =
                 Success \<lparr> servedFile = ''r1.bmp'', contentType = Own ''application/octet-stream'',
                           cacheControl = ''private, max-age=86400'', body = bytes \<rparr>" by blast
  from bytes have "bytes = ''BM''" by simp
  with g a b c1 c2 e p show ?thesis by simp
qed

subsection \<open>Editing an expense\<close>

lemma setField_frame: "getField n (setField a e) = (if n = nameOf a then a else getField n e)"
  by (cases a; cases n) simp_all

text \<open>
  C9. \<^verbatim>\<open>updateExpense\<close> keeps the length and the order of the list; an expense whose
  id is the given one has the named field replaced by the given value and every other
  field unchanged; every other expense is unchanged; and when no expense has the id the
  list is unchanged.
\<close>

theorem updateExpense_frame:
  "length (updateExpense eid a es) = length es \<and>
   (\<forall>k < length es. id' (es ! k) = eid \<longrightarrow>
      getField (nameOf a) (updateExpense eid a es ! k) = a \<and>
      (\<forall>n. n \<noteq> nameOf a \<longrightarrow>
         getField n (updateExpense eid a es ! k) = getField n (es ! k))) \<and>
   (\<forall>k < length es. id' (es ! k) \<noteq> eid \<longrightarrow> updateExpense eid a es ! k = es ! k) \<and>
   ((\<forall>e \<in> set es. id' e \<noteq> eid) \<longrightarrow> updateExpense eid a es = es)"
proof -
  have "updateExpense eid a es = es" if "\<forall>e \<in> set es. id' e \<noteq> eid"
    using that by (simp add: updateExpense_def map_idI)
  then show ?thesis
    by (simp add: updateExpense_def setField_frame)
qed

theorem updateExpense_frame_witness:
  "updateExpense ''expense-1'' (Account (Some ''acc1''))
     [sampleExpense ''expense-0'' None ''Shop'', sampleExpense ''expense-1'' None ''Shop'']
   = [sampleExpense ''expense-0'' None ''Shop'', sampleExpense ''expense-1'' (Some ''acc1'') ''Shop'']
   \<and> getField FAccount
       (updateExpense ''expense-1'' (Account (Some ''acc1''))
          [sampleExpense ''expense-0'' None ''Shop'', sampleExpense ''expense-1'' None ''Shop''] ! 1)
     = Account (Some ''acc1'')
   \<and> updateExpense ''expense-7'' (Account (Some ''acc1''))
       [sampleExpense ''expense-0'' None ''Shop'', sampleExpense ''expense-1'' None ''Shop'']
     = [sampleExpense ''expense-0'' None ''Shop'', sampleExpense ''expense-1'' None ''Shop'']"
proof -
  let ?es = "[sampleExpense ''expense-0'' None ''Shop'', sampleExpense ''expense-1'' None ''Shop'']"
  have ids: "\<forall>e \<in> set ?es. id' e \<noteq> ''expense-7''" by (simp add: sampleExpense_def)
  have one: "1 < length ?es" "id' (?es ! 1) = ''expense-1''" by (simp_all add: sampleExpense_def)
  from updateExpense_frame [of "''expense-7''" "Account (Some ''acc1'')" ?es] ids
  have c: "updateExpense ''expense-7'' (Account (Some ''acc1'')) ?es = ?es" by blast
  from updateExpense_frame [of "''expense-1''" "Account (Some ''acc1'')" ?es] one
  have b: "getField (nameOf (Account (Some ''acc1'')))
             (updateExpense ''expense-1'' (Account (Some ''acc1'')) ?es ! 1) = Account (Some ''acc1'')"
    by blast
  have a: "updateExpense ''expense-1'' (Account (Some ''acc1'')) ?es
            = [sampleExpense ''expense-0'' None ''Shop'', sampleExpense ''expense-1'' (Some ''acc1'') ''Shop'']"
    by (simp add: updateExpense_def sampleExpense_def)
  from a b c show ?thesis by simp
qed

subsection \<open>Retrieval after deletion\<close>



lemma handleGet_Success:
  assumes "handleGet lower b files fileId = Success r"
  shows "servedFile r \<in> fst ` set files \<and> matchesRetrieve fileId (servedFile r)"
proof -
  from assms obtain g bytes where g: "find (matchesRetrieve fileId) (map fst files) = Some g"
    and r: "servedFile r = g"
    by (auto simp: handleGet_def split: if_splits option.splits)
  from g have "g \<in> set (map fst files) \<and> matchesRetrieve fileId g"
    by (auto simp: find_Some_iff)
  with r show ?thesis by auto
qed

lemma handleGet_NotFound_iff:
  assumes "fileId \<noteq> []"
  shows "handleGet lower False files fileId = Failure 404 ''file-not-found'' \<longleftrightarrow>
         (\<forall>g \<in> fst ` set files. \<not> matchesRetrieve fileId g)"
proof (cases "find (matchesRetrieve fileId) (map fst files)")
  case None
  then have "\<forall>g \<in> fst ` set files. \<not> matchesRetrieve fileId g"
    by (auto simp: find_None_iff)
  moreover have "handleGet lower False files fileId = Failure 404 ''file-not-found''"
    unfolding handleGet_def None using assms by simp
  ultimately show ?thesis by simp
next
  case (Some g)
  then have g: "g \<in> fst ` set files" "matchesRetrieve fileId g"
    by (auto simp: find_Some_iff)
  then have "map_of files g \<noteq> None" by (simp add: map_of_eq_None_iff)
  then obtain bytes where "map_of files g = Some bytes" by auto
  with Some g assms show ?thesis by (auto simp: handleGet_def)
qed




text \<open>
  An identifier that matches a stored file is resolved by all three handlers.
\<close>

lemma stored_identifier_resolves:
  assumes "f \<in> fst ` set files" and "fileId \<noteq> []"
    and "matchesProcess fileId f" and "matchesRetrieve fileId f" and "matchesDelete fileId f"
  shows "(\<exists>g. resolveProcess False files fileId (Some cs) = Success g \<and> matchesProcess fileId g) \<and>
         (\<exists>r. handleGet lower False files fileId = Success r \<and>
               matchesRetrieve fileId (servedFile r)) \<and>
         fst (handleDelete False files fileId) = Success ''Receipt deleted successfully''"
proof -
  from assms(1) have mem: "f \<in> set (map fst files)" by simp
  from mem assms(3) have "find (matchesProcess fileId) (map fst files) \<noteq> None"
    by (auto simp: find_None_iff)
  then obtain g where g: "find (matchesProcess fileId) (map fst files) = Some g" by auto
  then have "matchesProcess fileId g" by (auto simp: find_Some_iff)
  with g assms(2) have 1: "\<exists>g. resolveProcess False files fileId (Some cs) = Success g \<and> matchesProcess fileId g"
    by (simp add: resolveProcess_def)
  from mem assms(4) have "\<not> (\<forall>g \<in> fst ` set files. \<not> matchesRetrieve fileId g)" by auto
  then have nf: "handleGet lower False files fileId \<noteq> Failure 404 ''file-not-found''"
    using handleGet_NotFound_iff [OF assms(2)] by simp
  then obtain r where r: "handleGet lower False files fileId = Success r"
    using assms(2) by (auto simp: handleGet_def split: option.splits)
  from handleGet_Success [OF r] r have 2: "\<exists>r. handleGet lower False files fileId = Success r \<and>
               matchesRetrieve fileId (servedFile r)" by blast
  from mem assms(5) have "find (matchesDelete fileId) (map fst files) \<noteq> None"
    by (auto simp: find_None_iff)
  with assms(2) have 3: "fst (handleDelete False files fileId) = Success ''Receipt deleted successfully''"
    by (auto simp: handleDelete_def)
  from 1 2 3 show ?thesis by blast
qed

subsection \<open>Parsing the model's response\<close>

lemma jsonMatch_span:
  assumes "CHR ''{'' \<notin> set pre" and "CHR ''}'' \<notin> set post"
  shows "jsonMatch (pre @ CHR ''{'' # mid @ CHR ''}'' # post) = Some (CHR ''{'' # mid @ [CHR ''}''])"
proof -
  have 1: "dropWhile (\<lambda>c. c \<noteq> CHR ''{'') (pre @ CHR ''{'' # mid @ CHR ''}'' # post)
           = CHR ''{'' # mid @ CHR ''}'' # post"
    using assms(1) by (subst dropWhile_append2) auto
  have 2: "dropWhile (\<lambda>c. c \<noteq> CHR ''}'') (rev post @ CHR ''}'' # rev mid @ [CHR ''{''])
           = CHR ''}'' # rev mid @ [CHR ''{'']"
    using assms(2) by (subst dropWhile_append2) auto
  show ?thesis unfolding jsonMatch_def 1 Let_def using 2 by simp
qed

lemma set_dropWhile_append: "set (dropWhile P ys) \<subseteq> set (dropWhile P (xs @ ys))"
  by (induction xs) (auto dest: set_dropWhileD)

lemma jsonMatch_None: "jsonMatch content = None \<longleftrightarrow> CHR ''}'' \<notin> set (dropWhile (\<lambda>c. c \<noteq> CHR ''{'') content)"
  by (auto simp: jsonMatch_def Let_def dropWhile_eq_Nil_conv)

lemma brace_pair_canonical:
  assumes "content = pre @ CHR ''{'' # mid @ CHR ''}'' # post"
  shows "\<exists>pre' mid' post'. content = pre' @ CHR ''{'' # mid' @ CHR ''}'' # post' \<and>
           CHR ''{'' \<notin> set pre' \<and> CHR ''}'' \<notin> set post'"
proof -
  let ?P = "\<lambda>c. c \<noteq> CHR ''{''"
  let ?Q = "\<lambda>c. c \<noteq> CHR ''}''"
  have "CHR ''}'' \<in> set (dropWhile ?P (CHR ''{'' # mid @ CHR ''}'' # post))" by simp
  then have in1: "CHR ''}'' \<in> set (dropWhile ?P content)"
    unfolding assms using set_dropWhile_append [of ?P "CHR ''{'' # mid @ CHR ''}'' # post" pre] by blast
  then have "dropWhile ?P content \<noteq> []" by (metis empty_iff list.set(1))
  then obtain r where r: "dropWhile ?P content = CHR ''{'' # r"
    using hd_dropWhile [of ?P content] by (cases "dropWhile ?P content") auto
  with in1 have inr: "CHR ''}'' \<in> set r" by simp
  have c: "content = takeWhile ?P content @ CHR ''{'' # r"
    using r takeWhile_dropWhile_id [of ?P content] by simp
  have "dropWhile ?Q (rev r) \<noteq> []" using inr by (simp add: dropWhile_eq_Nil_conv)
  then obtain s where s: "dropWhile ?Q (rev r) = CHR ''}'' # s"
    using hd_dropWhile [of ?Q "rev r"] by (cases "dropWhile ?Q (rev r)") auto
  have "rev r = takeWhile ?Q (rev r) @ CHR ''}'' # s"
    using s takeWhile_dropWhile_id [of ?Q "rev r"] by simp
  then have "rev (rev r) = rev (takeWhile ?Q (rev r) @ CHR ''}'' # s)" by (rule arg_cong)
  then have r2: "r = rev s @ CHR ''}'' # rev (takeWhile ?Q (rev r))" by simp
  have a: "CHR ''{'' \<notin> set (takeWhile ?P content)" by (auto dest: set_takeWhileD)
  have b: "CHR ''}'' \<notin> set (rev (takeWhile ?Q (rev r)))" by (auto dest: set_takeWhileD)
  have "content = takeWhile ?P content @ CHR ''{'' # rev s @ CHR ''}'' # rev (takeWhile ?Q (rev r))"
    using c r2 by simp
  with a b show ?thesis by blast
qed

lemma jsonMatch_None_iff:
  "jsonMatch content = None \<longleftrightarrow> \<not> (\<exists>pre mid post. content = pre @ CHR ''{'' # mid @ CHR ''}'' # post)"
proof
  assume n: "jsonMatch content = None"
  show "\<not> (\<exists>pre mid post. content = pre @ CHR ''{'' # mid @ CHR ''}'' # post)"
  proof
    assume "\<exists>pre mid post. content = pre @ CHR ''{'' # mid @ CHR ''}'' # post"
    then obtain pre mid post where "content = pre @ CHR ''{'' # mid @ CHR ''}'' # post \<and>
           CHR ''{'' \<notin> set pre \<and> CHR ''}'' \<notin> set post" using brace_pair_canonical by blast
    then have "jsonMatch content \<noteq> None" using jsonMatch_span by auto
    with n show False by simp
  qed
next
  assume a: "\<not> (\<exists>pre mid post. content = pre @ CHR ''{'' # mid @ CHR ''}'' # post)"
  show "jsonMatch content = None"
  proof (rule ccontr)
    let ?P = "\<lambda>c. c \<noteq> CHR ''{''"
    assume "jsonMatch content \<noteq> None"
    then have in1: "CHR ''}'' \<in> set (dropWhile ?P content)" by (simp add: jsonMatch_None)
    then have "dropWhile ?P content \<noteq> []" by (metis empty_iff list.set(1))
    then obtain r where r: "dropWhile ?P content = CHR ''{'' # r"
      using hd_dropWhile [of ?P content] by (cases "dropWhile ?P content") auto
    with in1 have "CHR ''}'' \<in> set r" by simp
    then obtain mid post where "r = mid @ CHR ''}'' # post" by (auto dest: split_list)
    then have "content = takeWhile ?P content @ CHR ''{'' # mid @ CHR ''}'' # post"
      using r takeWhile_dropWhile_id [of ?P content] by simp
    with a show False by blast
  qed
qed

text \<open>
  C2, as the code has it. The text handed to \<^verbatim>\<open>JSON.parse\<close> runs from the first opening
  brace to the last closing brace. Parsing fails with \<^verbatim>\<open>No JSON found in response\<close> when
  no closing brace follows an opening brace; otherwise the response splits, in the way
  the second part states, into a prefix without opening brace, the braced span and a
  suffix without closing brace, and the outcome is that of \<^verbatim>\<open>JSON.parse\<close> on the span.
\<close>

theorem parseResponse_greedy_span:
  "((\<nexists>pre mid post. content = pre @ CHR ''{'' # mid @ CHR ''}'' # post) \<longrightarrow>
      parseResponse jp content = Inl (ParseError ''No JSON found in response'')) \<and>
   ((\<exists>pre mid post. content = pre @ CHR ''{'' # mid @ CHR ''}'' # post) \<longrightarrow>
      (\<exists>pre mid post. content = pre @ CHR ''{'' # mid @ CHR ''}'' # post \<and>
         CHR ''{'' \<notin> set pre \<and> CHR ''}'' \<notin> set post)) \<and>
   (\<forall>pre mid post. content = pre @ CHR ''{'' # mid @ CHR ''}'' # post \<and>
         CHR ''{'' \<notin> set pre \<and> CHR ''}'' \<notin> set post \<longrightarrow>
      parseResponse jp content =
        (case jp (CHR ''{'' # mid @ [CHR ''}'']) of
           Inl message \<Rightarrow> Inl (ParseError message)
         | Inr parsedData \<Rightarrow> Inr parsedData))"
proof (intro conjI allI impI)
  assume "\<nexists>pre mid post. content = pre @ CHR ''{'' # mid @ CHR ''}'' # post"
  then have "jsonMatch content = None" by (simp add: jsonMatch_None_iff)
  then show "parseResponse jp content = Inl (ParseError ''No JSON found in response'')"
    by (simp add: parseResponse_def)
next
  assume "\<exists>pre mid post. content = pre @ CHR ''{'' # mid @ CHR ''}'' # post"
  then show "\<exists>pre mid post. content = pre @ CHR ''{'' # mid @ CHR ''}'' # post \<and>
         CHR ''{'' \<notin> set pre \<and> CHR ''}'' \<notin> set post"
    using brace_pair_canonical by blast
next
  fix pre mid post
  assume "content = pre @ CHR ''{'' # mid @ CHR ''}'' # post \<and>
         CHR ''{'' \<notin> set pre \<and> CHR ''}'' \<notin> set post"
  then have "jsonMatch content = Some (CHR ''{'' # mid @ [CHR ''}''])"
    using jsonMatch_span by simp
  then show "parseResponse jp content =
        (case jp (CHR ''{'' # mid @ [CHR ''}'']) of
           Inl message \<Rightarrow> Inl (ParseError message)
         | Inr parsedData \<Rightarrow> Inr parsedData)"
    by (simp add: parseResponse_def)
qed

theorem parseResponse_greedy_span_witness:
  "parseResponse parseEmptyObjectOnly ''ok {} bye'' = Inr (JSObject []) \<and>
   parseResponse parseEmptyObjectOnly ''no json here'' = Inl (ParseError ''No JSON found in response'')"
proof -
  have a: "''ok {} bye'' = ''ok '' @ CHR ''{'' # [] @ CHR ''}'' # '' bye'' \<and>
        CHR ''{'' \<notin> set ''ok '' \<and> CHR ''}'' \<notin> set '' bye''" by simp
  have b: "\<nexists>pre mid post. ''no json here'' = pre @ CHR ''{'' # mid @ CHR ''}'' # post"
  proof
    assume "\<exists>pre mid post. ''no json here'' = pre @ CHR ''{'' # mid @ CHR ''}'' # post"
    then obtain pre mid post where "''no json here'' = pre @ CHR ''{'' # mid @ CHR ''}'' # post" by blast
    then have "set ''no json here'' = set (pre @ CHR ''{'' # mid @ CHR ''}'' # post)" by (rule arg_cong)
    then have "CHR ''{'' \<in> set ''no json here''" by simp
    then show False by simp
  qed
  from parseResponse_greedy_span [of "''ok {} bye''" parseEmptyObjectOnly] a
  have 1: "parseResponse parseEmptyObjectOnly ''ok {} bye'' =
        (case parseEmptyObjectOnly (CHR ''{'' # [] @ [CHR ''}'']) of
           Inl message \<Rightarrow> Inl (ParseError message)
         | Inr parsedData \<Rightarrow> Inr parsedData)" by blast
  from parseResponse_greedy_span [of "''no json here''" parseEmptyObjectOnly] b
  have 2: "parseResponse parseEmptyObjectOnly ''no json here'' = Inl (ParseError ''No JSON found in response'')"
    by blast
  from 1 2 show ?thesis by (simp add: parseEmptyObjectOnly_def)
qed

text \<open>
  C2, as the spec states it, fails: for prose around the well-formed object \<^verbatim>\<open>{}\<close>, with
  a closing brace in the prose after it, the extracted text is not the first balanced
  object, and parsing fails.
\<close>

theorem greedy_match_is_not_first_object:
  "jsonMatch ''ok {} bye }'' = Some ''{} bye }'' \<and>
   spec_firstBalancedObject ''ok {} bye }'' = Some ''{}'' \<and>
   parseEmptyObjectOnly ''{}'' = Inr (JSObject []) \<and>
   parseResponse parseEmptyObjectOnly ''ok {} bye }'' = Inl (ParseError ''Unexpected token'')"
  by code_simp

text \<open>
  \<^verbatim>\<open>processReceipt\<close> fails with a parse error exactly when the parsing block does.
\<close>

lemma parseResponse_error: "parseResponse jp content = Inl e \<Longrightarrow> \<exists>m. e = ParseError m"
  by (auto simp: parseResponse_def split: option.splits sum.splits)

lemma processReceipt_ParseError:
  "processReceipt env p cs = Inl (ParseError m) \<longleftrightarrow>
     present (apiKey env) \<and>
     (\<exists>imageBuffer response.
        readImage env p = Some imageBuffer \<and>
        callModel env (getMimeType (toLowerCase env (extname p))) imageBuffer (categoryList cs)
          = Inr response \<and>
        present response \<and>
        parseResponse (jsonParse env) (the response) = Inl (ParseError m))"
  by (auto simp: processReceipt_def Let_def split: if_splits option.splits sum.splits)

subsection \<open>Normalization\<close>

lemma those_map_Some:
  "those (map f xs) = Some ys \<Longrightarrow> length ys = length xs \<and> (\<forall>i < length xs. f (xs ! i) = Some (ys ! i))"
proof (induction xs arbitrary: ys)
  case Nil
  then show ?case by simp
next
  case (Cons x xs)
  from Cons.prems obtain y ys' where y: "f x = Some y" and t: "those (map f xs) = Some ys'"
    and ys: "ys = y # ys'"
    by (auto split: option.splits)
  from Cons.IH [OF t] have "length ys' = length xs" and "\<forall>i < length xs. f (xs ! i) = Some (ys' ! i)"
    by simp_all
  with y ys show ?case by (auto simp: nth_Cons split: nat.splits)
qed

lemma normalizeResult_Some:
  assumes "normalizeResult today content parsedData = Some result"
  shows "\<exists>xs ys. orElse (field parsedData ''expenses'') (JSArray []) = JSArray xs \<and>
           field result ''expenses'' = JSArray ys \<and>
           those (map (normalizeExpense today parsedData) xs) = Some ys"
  using assms
  by (auto simp: normalizeResult_def split: if_splits jsval.splits option.splits)

lemma normalizeExpense_fields:
  assumes "normalizeExpense today parsedData x = Some y"
  shows "field y ''amount'' = orElse (field x ''amount'') (JSNumber (Finite 0))"
    and "field y ''merchant'' =
           orElse (orElse (field parsedData ''merchant'') (field x ''merchant'')) (JSString [])"
    and "field y ''date'' =
           orElse (orElse (field x ''date'') (field parsedData ''date'')) (JSString today)"
    and "field y ''categoryId'' = orElse (field x ''categoryId'') JSNull"
    and "field y ''categoryName'' = orElse (field x ''categoryName'') (JSString ''Uncategorized'')"
    and "field y ''note'' = orElse (field x ''note'') (JSString [])"
    and "field y ''confidence'' = orElse (field x ''confidence'') (JSNumber (Finite (1 / 2)))"
  using assms by (auto simp: normalizeExpense_def split: if_splits)

text \<open>
  C3, as the code has it. Every returned expense is the normalization of the expense at
  the same position. A field of the expense that is truthy is unchanged and one that is
  falsy (absent, null, 0, empty) gets its default, but for the merchant: the top-level
  merchant, when truthy, takes the place of the expense's own merchant, which counts only
  when the top-level merchant is falsy.
\<close>

theorem normalizeResult_defaults:
  assumes "normalizeResult today content parsedData = Some result"
  shows "\<exists>xs ys. orElse (field parsedData ''expenses'') (JSArray []) = JSArray xs \<and>
           field result ''expenses'' = JSArray ys \<and> length ys = length xs \<and>
           (\<forall>i < length xs.
              field (ys ! i) ''amount'' =
                (if truthy (field (xs ! i) ''amount'') then field (xs ! i) ''amount''
                 else JSNumber (Finite 0)) \<and>
              field (ys ! i) ''merchant'' =
                (if truthy (field parsedData ''merchant'') then field parsedData ''merchant''
                 else if truthy (field (xs ! i) ''merchant'') then field (xs ! i) ''merchant''
                 else JSString []) \<and>
              field (ys ! i) ''date'' =
                (if truthy (field (xs ! i) ''date'') then field (xs ! i) ''date''
                 else if truthy (field parsedData ''date'') then field parsedData ''date''
                 else JSString today) \<and>
              field (ys ! i) ''categoryId'' =
                (if truthy (field (xs ! i) ''categoryId'') then field (xs ! i) ''categoryId''
                 else JSNull) \<and>
              field (ys ! i) ''categoryName'' =
                (if truthy (field (xs ! i) ''categoryName'') then field (xs ! i) ''categoryName''
                 else JSString ''Uncategorized'') \<and>
              field (ys ! i) ''note'' =
                (if truthy (field (xs ! i) ''note'') then field (xs ! i) ''note''
                 else JSString []) \<and>
              field (ys ! i) ''confidence'' =
                (if truthy (field (xs ! i) ''confidence'') then field (xs ! i) ''confidence''
                 else JSNumber (Finite (1 / 2))))"
proof -
  from normalizeResult_Some [OF assms] obtain xs ys where
    xs: "orElse (field parsedData ''expenses'') (JSArray []) = JSArray xs"
    and ys: "field result ''expenses'' = JSArray ys"
    and t: "those (map (normalizeExpense today parsedData) xs) = Some ys" by blast
  from those_map_Some [OF t] have len: "length ys = length xs"
    and each: "\<And>i. i < length xs \<Longrightarrow> normalizeExpense today parsedData (xs ! i) = Some (ys ! i)"
    by simp_all
  show ?thesis
  proof (intro exI conjI allI impI)
    show "orElse (field parsedData ''expenses'') (JSArray []) = JSArray xs" by (rule xs)
    show "field result ''expenses'' = JSArray ys" by (rule ys)
    show "length ys = length xs" by (rule len)
  qed (simp_all add: normalizeExpense_fields [OF each] orElse_def)
qed

theorem normalizeResult_defaults_witness:
  "normalizeResult ''2024-01-02'' ''raw'' sampleParsed = Some sampleResult \<and>
   (\<exists>y. field sampleResult ''expenses'' = JSArray [y] \<and>
        field y ''merchant'' = JSString ''Shop'' \<and> field y ''date'' = JSString ''2024-01-01'' \<and>
        field y ''amount'' = JSNumber (Finite 1200))"
proof -
  have run: "normalizeResult ''2024-01-02'' ''raw'' sampleParsed = Some sampleResult"
    by (simp add: normalizeResult_def normalizeExpense_def sampleParsed_def sampleResult_def orElse_def)
  from normalizeResult_defaults [OF run] obtain xs ys where
    xs: "orElse (field sampleParsed ''expenses'') (JSArray []) = JSArray xs"
    and ys: "field sampleResult ''expenses'' = JSArray ys" and len: "length ys = length xs"
    and each: "\<forall>i < length xs.
        field (ys ! i) ''amount'' =
          (if truthy (field (xs ! i) ''amount'') then field (xs ! i) ''amount''
           else JSNumber (Finite 0)) \<and>
        field (ys ! i) ''merchant'' =
          (if truthy (field sampleParsed ''merchant'') then field sampleParsed ''merchant''
           else if truthy (field (xs ! i) ''merchant'') then field (xs ! i) ''merchant''
           else JSString []) \<and>
        field (ys ! i) ''date'' =
          (if truthy (field (xs ! i) ''date'') then field (xs ! i) ''date''
           else if truthy (field sampleParsed ''date'') then field sampleParsed ''date''
           else JSString ''2024-01-02'')"
    by blast
  from xs have xs': "xs = [JSObject
                [(''amount'', JSNumber (Finite 1200)), (''categoryId'', JSString ''c1''),
                 (''categoryName'', JSString ''Groceries''), (''note'', JSString ''milk, eggs''),
                 (''confidence'', JSNumber (Finite (23 / 25)))]]"
    by (simp add: sampleParsed_def orElse_def)
  from len xs' obtain y where y: "ys = [y]" by (cases ys) auto
  from each xs' y have "field y ''amount'' = JSNumber (Finite 1200) \<and>
      field y ''merchant'' = JSString ''Shop'' \<and> field y ''date'' = JSString ''2024-01-01''"
    by (simp add: sampleParsed_def)
  with run ys y show ?thesis by simp
qed

text \<open>
  C3, as the spec states it, fails: an expense's own merchant gives way to the top-level
  merchant, and a confidence of 0 comes back as 0.5.
\<close>

theorem top_level_merchant_overrides:
  "normalizeExpense ''2024-01-02'' (JSObject [(''merchant'', JSString ''Top'')])
     (JSObject [(''merchant'', JSString ''Own''), (''confidence'', JSNumber (Finite 0))])
   = Some (JSObject
       [(''amount'', JSNumber (Finite 0)), (''merchant'', JSString ''Top''),
        (''date'', JSString ''2024-01-02''), (''categoryId'', JSNull),
        (''categoryName'', JSString ''Uncategorized''), (''note'', JSString []),
        (''confidence'', JSNumber (Finite (1 / 2)))])"
  by (simp add: normalizeExpense_def orElse_def)




text \<open>
  What \<^verbatim>\<open>processReceipt\<close> returns is the normalization of what the parsing block gave.
\<close>

lemma processReceipt_result:
  assumes "processReceipt env p cs = Inr result"
  shows "\<exists>content parsedData.
           parseResponse (jsonParse env) content = Inr parsedData \<and>
           normalizeResult (currentDate env) content parsedData = Some result"
  using assms
  by (auto simp: processReceipt_def Let_def split: if_splits option.splits sum.splits)

subsection \<open>Commit\<close>


lemma created_append: "created (a @ b) = created a @ created b"
  by (induction a rule: created.induct) simp_all



lemma resolvePayee_created:
  "created (fst (resolvePayee sv payees sent e)) =
     created sent @
       (if \<not> present (payee e) \<and> merchant e \<noteq> [] \<and>
           (\<forall>p \<in> set payees. lowerCase sv (payee_name p) \<noteq> lowerCase sv (merchant e))
        then [merchant e] else [])"
proof (cases "find (\<lambda>p. lowerCase sv (payee_name p) = lowerCase sv (merchant e)) payees")
  case None
  then have "\<forall>p \<in> set payees. lowerCase sv (payee_name p) \<noteq> lowerCase sv (merchant e)"
    by (auto simp: find_None_iff)
  then show ?thesis
    unfolding resolvePayee_def None by (simp add: created_append split: sum.splits)
next
  case (Some q)
  then have "q \<in> set payees \<and> lowerCase sv (payee_name q) = lowerCase sv (merchant e)"
    by (auto simp: find_Some_iff)
  then have "\<not> (\<forall>p \<in> set payees. lowerCase sv (payee_name p) \<noteq> lowerCase sv (merchant e))"
    by blast
  then show ?thesis
    unfolding resolvePayee_def Some by simp
qed

lemma buildTransactions_created:
  assumes "snd (buildTransactions sv payees url k sent txs es) = Inr out"
  shows "created (fst (buildTransactions sv payees url k sent txs es)) =
           created sent @
             map merchant
               (filter (\<lambda>e. \<not> present (payee e) \<and> merchant e \<noteq> [] \<and>
                  (\<forall>p \<in> set payees. lowerCase sv (payee_name p) \<noteq> lowerCase sv (merchant e)))
                es)"
  using assms
proof (induction es arbitrary: k sent txs)
  case Nil
  then show ?case by simp
next
  case (Cons e es)
  from Cons.prems have acc: "present (account e)" by (auto split: if_splits)
  obtain sent1 r where r: "resolvePayee sv payees sent e = (sent1, r)"
    by (cases "resolvePayee sv payees sent e") auto
  with Cons.prems acc obtain p where p: "r = Inr p" by (cases r) auto
  let ?t = "\<lparr> tx_id = tempId sv k, tx_account = account e, tx_date = date e,
                    tx_amount = amount e, tx_payee = p, tx_category = categoryId e,
                    tx_notes = url, tx_cleared = False \<rparr>"
  have step: "buildTransactions sv payees url k sent txs (e # es) =
        buildTransactions sv payees url (Suc k) sent1 (txs @ [?t]) es"
    using acc r p by simp
  with Cons.prems have "snd (buildTransactions sv payees url (Suc k) sent1 (txs @ [?t]) es) = Inr out"
    by simp
  from Cons.IH [OF this] have ih: "created (fst (buildTransactions sv payees url (Suc k) sent1 (txs @ [?t]) es)) =
           created sent1 @
             map merchant
               (filter (\<lambda>e. \<not> present (payee e) \<and> merchant e \<noteq> [] \<and>
                  (\<forall>p \<in> set payees. lowerCase sv (payee_name p) \<noteq> lowerCase sv (merchant e)))
                es)" .
  have "created sent1 = created sent @
       (if \<not> present (payee e) \<and> merchant e \<noteq> [] \<and>
           (\<forall>p \<in> set payees. lowerCase sv (payee_name p) \<noteq> lowerCase sv (merchant e))
        then [merchant e] else [])"
    using resolvePayee_created [of sv payees sent e] r by simp
  with ih show ?case unfolding step by simp
qed




lemma pressSave_disabled:
  assumes "\<exists>e \<in> set es. \<not> present (account e)"
  shows "pressSave sv payees accountId link es = ([], None)"
proof -
  from assms have "\<not> list_all (\<lambda>e. present (account e)) es" by (simp add: list_all_iff)
  then show ?thesis by (simp add: pressSave_def canSave_def)
qed




lemma created_map_PayeeCreate: "created (map PayeeCreate names) = names"
  by (induction names) simp_all






text \<open>
  The last segment of the link is the name of the stored file, extension included, and the
  retrieval test does not accept a stored file under its own full name.
\<close>

lemma receipt_link_not_matched:
  assumes "CHR ''/'' \<notin> set f" and "extname f \<noteq> []"
  shows "info_receiptUrl (processInfoOf (fileIdOf f) f) @ info_extension (processInfoOf (fileIdOf f) f)
           = ''/receipt/'' @ f \<and>
         routeFileId (''/receipt/'' @ f) = Some f \<and> \<not> matchesRetrieve f f"
proof -
  from extname_split [OF assms] have f: "f = fileIdOf f @ extname f" by simp
  have 1: "info_receiptUrl (processInfoOf (fileIdOf f) f) @ info_extension (processInfoOf (fileIdOf f) f)
           = ''/receipt/'' @ f"
    using f by (simp add: processInfoOf_def)
  have 2: "routeFileId (''/receipt/'' @ f) = Some f"
    using assms(1) by (simp add: routeFileId_def)
  have ne: "fileIdOf f \<noteq> f" using f assms(2) by (metis append_self_conv)
  have "length (fileIdOf f) < length (''_'' @ f)"
    using arg_cong [OF f, of length] by simp
  then have "\<not> sublist (''_'' @ f) (fileIdOf f)"
    using sublist_length_le [of "''_'' @ f" "fileIdOf f"] by auto
  with ne have 3: "\<not> matchesRetrieve f f" by (simp add: matchesRetrieve_def fileIdOf_def)
  from 1 2 3 show ?thesis by blast
qed


text \<open>
  C6. When some expense has no account, \<^verbatim>\<open>canSave\<close> is false and a press of Save sends no
  request at all: no payee is created and no transaction is submitted, whatever the
  position of the expense without account in the list.
\<close>

theorem no_commit_without_accounts:
  assumes "\<exists>e \<in> set es. \<not> present (account e)"
  shows "\<not> canSave es \<and>
         pressSave sv payees accountId link es = ([], None) \<and>
         created (fst (pressSave sv payees accountId link es)) = [] \<and>
         submitted (fst (pressSave sv payees accountId link es)) = []"
proof -
  from assms have "\<not> canSave es" by (auto simp: canSave_def list_all_iff)
  with pressSave_disabled [OF assms, of sv payees accountId link] show ?thesis by simp
qed

theorem no_commit_without_accounts_witness:
  "\<not> canSave [sampleExpense ''expense-0'' (Some ''acc1'') ''New Shop'',
      sampleExpense ''expense-1'' None ''New Shop''] \<and>
   pressSave answeringServices [] None ''http://host/receipt/17_anonymous_ab.jpg''
     [sampleExpense ''expense-0'' (Some ''acc1'') ''New Shop'',
      sampleExpense ''expense-1'' None ''New Shop''] = ([], None) \<and>
   created (fst (pressSave answeringServices [] None ''http://host/receipt/17_anonymous_ab.jpg''
     [sampleExpense ''expense-0'' (Some ''acc1'') ''New Shop'',
      sampleExpense ''expense-1'' None ''New Shop''])) = []"
proof -
  have "\<exists>e \<in> set [sampleExpense ''expense-0'' (Some ''acc1'') ''New Shop'',
      sampleExpense ''expense-1'' None ''New Shop'']. \<not> present (account e)"
    by (simp add: sampleExpense_def)
  from no_commit_without_accounts [OF this] show ?thesis by blast
qed

text \<open>
  It is the disabled button that keeps the commit whole. The check inside \<^verbatim>\<open>handleSave\<close>
  sits in the loop, after the payee requests of the earlier expenses; on a list that the
  button does not let through it would stop only after a payee-create.
\<close>

lemma handleSave_own_check:
  "handleSave answeringServices [] None ''http://host/receipt/17_anonymous_ab.jpg''
     [sampleExpense ''expense-0'' (Some ''acc1'') ''New Shop'',
      sampleExpense ''expense-1'' None ''New Shop'']
   = ([PayeeCreate ''New Shop''], ShowError ''All expenses must have an account'') \<and>
   \<not> canSave [sampleExpense ''expense-0'' (Some ''acc1'') ''New Shop'',
      sampleExpense ''expense-1'' None ''New Shop'']"
  by (simp add: handleSave_def resolvePayee_def sampleExpense_def answeringServices_def canSave_def)

text \<open>
  C7 fails on a receipt with two expenses of one new merchant. The lookup runs over the
  payee list of the render, which the commit does not extend with the payees it creates:
  for two expenses with accounts and the merchant \<^verbatim>\<open>New Shop\<close>, and no payee of that
  name, the commit sends payee-create for \<^verbatim>\<open>New Shop\<close> twice and the two transactions
  carry the two generated ids, where the second expense should have reused the payee
  created for the first.
\<close>

theorem same_merchant_created_twice:
  "canSave [sampleExpense ''expense-0'' (Some ''acc1'') ''New Shop'',
            sampleExpense ''expense-1'' (Some ''acc1'') ''New Shop''] \<and>
   pressSave answeringServices [] None ''http://host/receipt/17_anonymous_ab.jpg''
     [sampleExpense ''expense-0'' (Some ''acc1'') ''New Shop'',
      sampleExpense ''expense-1'' (Some ''acc1'') ''New Shop'']
   = ([PayeeCreate ''New Shop'', PayeeCreate ''New Shop'',
       TransactionsBatchUpdate
         [\<lparr> tx_id = ''temp-'', tx_account = Some ''acc1'', tx_date = ''2024-01-01'',
            tx_amount = Finite 1200, tx_payee = Some ''payee-'', tx_category = Some ''c1'',
            tx_notes = ''http://host/receipt/17_anonymous_ab.jpg'', tx_cleared = False \<rparr>,
          \<lparr> tx_id = ''temp-i'', tx_account = Some ''acc1'', tx_date = ''2024-01-01'',
            tx_amount = Finite 1200, tx_payee = Some ''payee-i'', tx_category = Some ''c1'',
            tx_notes = ''http://host/receipt/17_anonymous_ab.jpg'', tx_cleared = False \<rparr>]],
      Some (NavigateToAccount ''acc1''))"
  by (simp add: pressSave_def canSave_def handleSave_def resolvePayee_def sampleExpense_def
      answeringServices_def)

end
